theory Spec2Isabelle
  imports Complex_Main "HOL-Library.AList" "HOL-Library.Multiset"
begin

text \<open>
  The functions of \<open>data_unificator/utils/mapping_utils.py\<close> that extract field
  metadata, detect conflicts between aligned sources, resolve them by hierarchy, weight or
  time, and convert values, as functions of HOL. The operations of pandas they call are
  modelled next to them, each under the call it stands for.
\<close>

section \<open>Values, tables and aligned items\<close>

text \<open>
  A scalar value of the Python program: \<open>None\<close>/\<open>NaN\<close>/\<open>NaT\<close> (all of them "null" for
  pandas), a bool, an unbounded int, a float (its numeric value), a str, and a point in
  time (a \<open>datetime\<close> or pandas \<open>Timestamp\<close>, given by its position on the time line).
\<close>

datatype pyval = PNone | PBool bool | PInt int | PFloat rat | PStr string | PDatetime int

text \<open>The exceptions that the modelled calls raise.\<close>

datatype py_error = ValueError | TypeError | InvalidIndexError

text \<open>
  A \<open>DataFrame\<close> is its ordered column labels and its rows. A row is the association list
  from column label to value; a label a row does not carry reads as null, which is what
  \<open>pd.concat\<close> fills in for the columns a source does not have.
\<close>

type_synonym row = "(string \<times> pyval) list"

record frame =
  columns :: "string list"
  rows :: "row list"

datatype nested = Leaf pyval | Dict "(string \<times> nested) list" | Seq "nested list"

datatype source_data = Tabular frame | Nested nested

record aligned_item =
  file_name :: string
  data :: source_data

definition cell :: "row \<Rightarrow> string \<Rightarrow> pyval" where
  "cell r c = (case map_of r c of None \<Rightarrow> PNone | Some v \<Rightarrow> v)"

text \<open>\<open>Series.unique()\<close>: the distinct values in order of first appearance.\<close>

definition unique :: "'a list \<Rightarrow> 'a list" where
  "unique xs = rev (remdups (rev xs))"

text \<open>\<open>df[c] = v\<close> with a scalar \<open>v\<close>: overwrite the column in place, or append it.\<close>

definition set_column :: "string \<Rightarrow> pyval \<Rightarrow> frame \<Rightarrow> frame" where
  "set_column c v df =
     \<lparr>columns = (if c \<in> set (columns df) then columns df else columns df @ [c]),
      rows = map (AList.update c v) (rows df)\<rparr>"

definition reindex :: "string list \<Rightarrow> row \<Rightarrow> row" where
  "reindex cols r = map (\<lambda>c. (c, cell r c)) cols"

text \<open>
  \<open>pd.concat(data_frames, ignore_index=True, sort=False)\<close>: the columns are the union in
  order of first appearance, the rows follow each other, missing cells are null. The cells
  keep their values here; the common type that pandas gives a column is modelled for the
  \<open>_weight\<close> column of the weight-based strategy, where the order of the rows depends
  on it.
\<close>

definition concat_frames :: "frame list \<Rightarrow> frame" where
  "concat_frames dfs =
     (let cols = unique (concat (map columns dfs))
      in \<lparr>columns = cols, rows = concat (map (\<lambda>df. map (reindex cols) (rows df)) dfs)\<rparr>)"

text \<open>
  \<open>pd.concat\<close> with its failure. When the tables do not all have the same column
  labels, pandas re-indexes each of them to the union of the labels, and re-indexing a
  table with a repeated column label raises \<open>InvalidIndexError\<close>. Tables that all have
  the same labels are stacked as they are. (A row of the model has one cell per label:
  where tables with a repeated label are stacked, the first cell under the label stands
  for all of them. The statements on the resolution strategies are about the failure, or
  about tables without a repeated label.)
\<close>

definition same_columns :: "frame list \<Rightarrow> bool" where
  "same_columns dfs =
     (case dfs of [] \<Rightarrow> True | d # ds \<Rightarrow> list_all (\<lambda>d'. columns d' = columns d) ds)"

definition pd_concat :: "frame list \<Rightarrow> py_error + frame" where
  "pd_concat dfs =
     (if list_ex (\<lambda>df. \<not> distinct (columns df)) dfs \<and> \<not> same_columns dfs
      then Inl InvalidIndexError
      else Inr (concat_frames dfs))"

text \<open>
  \<open>set.intersection(*(set(df.columns) for df in data_frames))\<close>. Python leaves the
  iteration order of the set open; the model lists the common labels in the order of the
  first table. Only the order of the components of a key tuple depends on it.
\<close>

definition common_columns :: "frame list \<Rightarrow> string list" where
  "common_columns dfs =
     (case dfs of [] \<Rightarrow> []
      | d # ds \<Rightarrow> filter (\<lambda>c. \<forall>d' \<in> set ds. c \<in> set (columns d')) (unique (columns d)))"

definition row_key :: "string list \<Rightarrow> row \<Rightarrow> pyval list" where
  "row_key key_columns r = map (cell r) key_columns"

text \<open>
  \<open>combined_df.groupby(key_columns)\<close>: rows with a null key component belong to no group
  (\<open>dropna=True\<close> is the default); every group keeps its rows in table order. pandas
  hands the groups out sorted by key; the model lists them by first appearance, and the
  result is a dictionary indexed by the key.
\<close>

definition groupby :: "string list \<Rightarrow> row list \<Rightarrow> (pyval list \<times> row list) list" where
  "groupby key_columns rs =
     (let kept = filter (\<lambda>r. PNone \<notin> set (row_key key_columns r)) rs
      in map (\<lambda>k. (k, filter (\<lambda>r. row_key key_columns r = k) kept))
             (unique (map (row_key key_columns) kept)))"

text \<open>The loop that copies every tabular item; non-tabular items are skipped.\<close>

fun tabular_frames :: "aligned_item list \<Rightarrow> (string \<times> frame) list" where
  "tabular_frames [] = []"
| "tabular_frames (data_dict # rest) =
     (case data data_dict of
        Tabular df \<Rightarrow> (file_name data_dict, df) # tabular_frames rest
      | Nested _ \<Rightarrow> tabular_frames rest)"

definition tag_source :: "string \<times> frame \<Rightarrow> frame" where
  "tag_source p = set_column ''_source'' (PStr (fst p)) (snd p)"

section \<open>Conflict detection\<close>

text \<open>\<open>group[column].dropna().unique()\<close>\<close>

definition column_values :: "string \<Rightarrow> row list \<Rightarrow> pyval list" where
  "column_values column g = unique (filter (\<lambda>v. v \<noteq> PNone) (map (\<lambda>r. cell r column) g))"

definition group_sources :: "row list \<Rightarrow> pyval list" where
  "group_sources g = unique (map (\<lambda>r. cell r ''_source'') g)"

definition conflicting_values ::
  "string list \<Rightarrow> string \<Rightarrow> row list \<Rightarrow> (string \<times> pyval list) list" where
  "conflicting_values source_names column g =
     fold (\<lambda>source cv.
             let source_values =
                   column_values column (filter (\<lambda>r. cell r ''_source'' = PStr source) g)
             in if length source_values > 0 then AList.update source source_values cv else cv)
          source_names []"

definition conflicting_fields ::
  "string list \<Rightarrow> string list \<Rightarrow> string list \<Rightarrow> row list
     \<Rightarrow> (string \<times> (string \<times> pyval list) list) list" where
  "conflicting_fields source_names all_columns key_columns g =
     fold (\<lambda>column cf.
             if column \<in> set key_columns \<or> column = ''_source'' then cf
             else if length (column_values column g) > 1
                  then AList.update column (conflicting_values source_names column g) cf
                  else cf)
          all_columns []"

type_synonym conflicts = "(pyval list \<times> (string \<times> (string \<times> pyval list) list) list) list"

definition group_step ::
  "string list \<Rightarrow> string list \<Rightarrow> string list \<Rightarrow> pyval list \<times> row list \<Rightarrow> conflicts \<Rightarrow> conflicts"
where
  "group_step source_names all_columns key_columns kg conflicts =
     (if length (group_sources (snd kg)) > 1
      then (let cf = conflicting_fields source_names all_columns key_columns (snd kg)
            in if cf \<noteq> [] then AList.update (fst kg) cf conflicts else conflicts)
      else conflicts)"

definition detect_conflicts :: "aligned_item list \<Rightarrow> conflicts" where
  "detect_conflicts aligned_data =
     (let tf = tabular_frames aligned_data;
          data_frames = map tag_source tf;
          source_names = map fst tf
      in if data_frames = [] then []
         else let key_columns = removeAll ''_source'' (common_columns data_frames)
              in if key_columns = [] then []
                 else let combined_df = concat_frames data_frames;
                          grouped = groupby key_columns (rows combined_df)
                      in fold (group_step source_names (columns combined_df) key_columns)
                              grouped [])"

text \<open>Names for what \<open>detect_conflicts\<close> computes on its way.\<close>

definition is_tabular :: "aligned_item \<Rightarrow> bool" where
  "is_tabular data_dict = (case data data_dict of Tabular _ \<Rightarrow> True | Nested _ \<Rightarrow> False)"





text \<open>
  The tables of the specification's examples: sources \<open>A\<close> and \<open>B\<close> with columns
  \<open>id\<close> and \<open>v\<close>, one row each for \<open>id = 1\<close>; \<open>B\<close> once more with the value of
  \<open>A\<close>; and a source \<open>C\<close> that has the column \<open>id\<close> only.
\<close>

definition ex_A :: aligned_item where
  "ex_A = \<lparr>file_name = ''A'',
           data = Tabular \<lparr>columns = [''id'', ''v''],
                            rows = [[(''id'', PInt 1), (''v'', PStr ''a'')]]\<rparr>\<rparr>"

definition ex_B :: aligned_item where
  "ex_B = \<lparr>file_name = ''B'',
           data = Tabular \<lparr>columns = [''id'', ''v''],
                            rows = [[(''id'', PInt 1), (''v'', PStr ''b'')]]\<rparr>\<rparr>"


definition ex_C :: aligned_item where
  "ex_C = \<lparr>file_name = ''C'',
           data = Tabular \<lparr>columns = [''id''], rows = [[(''id'', PInt 1)]]\<rparr>\<rparr>"

definition ex_nested :: aligned_item where
  "ex_nested = \<lparr>file_name = ''N'', data = Nested (Dict [(''id'', Leaf (PInt 1))])\<rparr>"

section \<open>Conflict resolution\<close>

text \<open>
  The bookkeeping column \<open>_priority\<close> holds ints and the parsed \<open>timestamp\<close> column
  holds points in time; \<open>num\<close> reads the number a row is sorted by. (The \<open>_weight\<close>
  column has its own reading, \<open>numr\<close>, below.)
\<close>

definition num :: "pyval \<Rightarrow> int" where
  "num v = (case v of PInt i \<Rightarrow> i | PDatetime t \<Rightarrow> t | _ \<Rightarrow> 0)"

text \<open>
  \<open>df.sort_values(column)\<close> and \<open>df.sort_values(column, ascending=False)\<close>. pandas sorts
  descending by reversing, sorting ascending and reversing again. Rows with equal sort
  values are kept in table order here; pandas' default sort does not promise that for long
  tables. The general statements below use of the sort only that its result is the same
  rows in order, which holds of any sort; where an evaluation at a given input has two
  rows of equal sort value, its text says so.
\<close>

definition sort_values :: "string \<Rightarrow> row list \<Rightarrow> row list" where
  "sort_values column rs = sort_key (\<lambda>r. num (cell r column)) rs"

definition sort_values_desc :: "string \<Rightarrow> row list \<Rightarrow> row list" where
  "sort_values_desc column rs = rev (sort_key (\<lambda>r. num (cell r column)) (rev rs))"

text \<open>\<open>df.drop_duplicates(subset=key_columns, keep='first')\<close>; nulls compare equal here.\<close>

fun drop_duplicates :: "string list \<Rightarrow> row list \<Rightarrow> row list" where
  "drop_duplicates key_columns [] = []"
| "drop_duplicates key_columns (r # rs) =
     r # drop_duplicates key_columns (filter (\<lambda>r'. row_key key_columns r' \<noteq> row_key key_columns r) rs)"

text \<open>\<open>df.drop(columns=cs)\<close>\<close>

definition drop_columns :: "string list \<Rightarrow> frame \<Rightarrow> frame" where
  "drop_columns cs df =
     \<lparr>columns = filter (\<lambda>c. c \<notin> set cs) (columns df),
      rows = map (filter (\<lambda>p. fst p \<notin> set cs)) (rows df)\<rparr>"

subsection \<open>Hierarchy-based\<close>

text \<open>\<open>{source: idx for idx, source in enumerate(source_hierarchy)}\<close>\<close>

definition source_priority :: "string list \<Rightarrow> (string \<times> nat) list" where
  "source_priority source_hierarchy =
     fold (\<lambda>(idx, source) d. AList.update source idx d) (enumerate 0 source_hierarchy) []"

text \<open>\<open>source_priority.get(file_name, len(source_priority))\<close>\<close>

definition priority_of :: "string list \<Rightarrow> string \<Rightarrow> nat" where
  "priority_of source_hierarchy name =
     (case map_of (source_priority source_hierarchy) name of
        Some idx \<Rightarrow> idx
      | None \<Rightarrow> length (source_priority source_hierarchy))"

definition tag_priority :: "string list \<Rightarrow> string \<times> frame \<Rightarrow> frame" where
  "tag_priority source_hierarchy p =
     set_column ''_priority'' (PInt (int (priority_of source_hierarchy (fst p))))
       (set_column ''_source'' (PStr (fst p)) (snd p))"

text \<open>
  The function returns its list of items, or the exception that leaves it: \<open>pd.concat\<close>
  (line 225) runs before the common columns are computed and tested.
\<close>

definition resolve_conflicts_hierarchy ::
  "aligned_item list \<Rightarrow> string list \<Rightarrow> py_error + aligned_item list"
where
  "resolve_conflicts_hierarchy aligned_data source_hierarchy =
     (let data_frames = map (tag_priority source_hierarchy) (tabular_frames aligned_data)
      in if data_frames = [] then Inr aligned_data
         else
           (case pd_concat data_frames of
              Inl e \<Rightarrow> Inl e
            | Inr combined_df \<Rightarrow>
                let key_columns =
                      removeAll ''_priority'' (removeAll ''_source'' (common_columns data_frames))
                in if key_columns = [] then Inr aligned_data
                   else
                     let combined_df =
                           combined_df\<lparr>rows := sort_values ''_priority'' (rows combined_df)\<rparr>;
                         resolved_df =
                           combined_df\<lparr>rows := drop_duplicates key_columns (rows combined_df)\<rparr>;
                         resolved_df = drop_columns [''_source'', ''_priority''] resolved_df
                     in Inr [\<lparr>file_name = ''resolved_data'', data = Tabular resolved_df\<rparr>]))"

subsection \<open>Weight-based\<close>

text \<open>
  A caller-supplied weight: a Python int, or a float given by its value (NaN and the
  infinities are no values of the model).
\<close>

datatype weight = WInt int | WFloat rat

text \<open>\<open>source_weights.get(file_name, 0)\<close>\<close>

definition weight_of :: "(string \<rightharpoonup> weight) \<Rightarrow> string \<Rightarrow> weight" where
  "weight_of source_weights name =
     (case source_weights name of Some w \<Rightarrow> w | None \<Rightarrow> WInt 0)"

definition weight_cell :: "weight \<Rightarrow> pyval" where
  "weight_cell w = (case w of WInt i \<Rightarrow> PInt i | WFloat r \<Rightarrow> PFloat r)"

definition tag_weight :: "(string \<rightharpoonup> weight) \<Rightarrow> string \<times> frame \<Rightarrow> frame" where
  "tag_weight source_weights p =
     set_column ''_weight'' (weight_cell (weight_of source_weights (fst p)))
       (set_column ''_source'' (PStr (fst p)) (snd p))"

text \<open>
  The \<open>_weight\<close> column is a numpy array. \<open>df_copy['_weight'] = weight\<close> makes a column
  of the type of the scalar: \<open>int64\<close> for an int from \<open>-2^63\<close> up to \<open>2^63 - 1\<close>,
  \<open>uint64\<close> for an int from \<open>2^63\<close> up to \<open>2^64 - 1\<close>, \<open>object\<close> for any other int,
  \<open>float64\<close> for a float. \<open>pd.concat\<close> brings the columns of the tables to their common
  type (numpy's \<open>result_type\<close>): \<open>int64\<close> and \<open>uint64\<close> together give \<open>float64\<close>.
  (pandas 2 leaves tables without rows out of this; the model does not.)
\<close>

datatype np_dtype = Int64 | UInt64 | Float64 | Object

definition scalar_dtype :: "weight \<Rightarrow> np_dtype" where
  "scalar_dtype w =
     (case w of
        WFloat r \<Rightarrow> Float64
      | WInt i \<Rightarrow>
          (if - (2 ^ 63) \<le> i \<and> i < 2 ^ 63 then Int64
           else if 2 ^ 63 \<le> i \<and> i < 2 ^ 64 then UInt64
           else Object))"

fun promote :: "np_dtype \<Rightarrow> np_dtype \<Rightarrow> np_dtype" where
  "promote Object t = Object"
| "promote t Object = Object"
| "promote Float64 t = Float64"
| "promote t Float64 = Float64"
| "promote Int64 Int64 = Int64"
| "promote UInt64 UInt64 = UInt64"
| "promote Int64 UInt64 = Float64"
| "promote UInt64 Int64 = Float64"

definition common_dtype :: "np_dtype list \<Rightarrow> np_dtype" where
  "common_dtype ts = (case ts of [] \<Rightarrow> Object | t # ts' \<Rightarrow> fold (\<lambda>t' acc. promote acc t') ts' t)"

text \<open>
  The conversion of an int to \<open>float64\<close>: up to 53 leading bits are kept, the rest is
  rounded to the nearest value of that form, a tie to the even one. (Only ints below
  \<open>2^64\<close> in size are ever converted.)
\<close>

function bit_length :: "int \<Rightarrow> nat" where
  "bit_length a = (if a \<le> 0 then 0 else Suc (bit_length (a div 2)))"
  by pat_completeness auto
termination
  by (relation "measure nat") auto

declare bit_length.simps [simp del]

definition round_float64 :: "int \<Rightarrow> int" where
  "round_float64 i =
     (let a = \<bar>i\<bar>; n = bit_length a
      in if n \<le> 53 then i
         else
           let e = n - 53;
               q = a div 2 ^ e;
               r = a mod 2 ^ e;
               h = 2 ^ (e - 1);
               q' = (if h < r \<or> (r = h \<and> odd q) then q + 1 else q)
           in sgn i * (q' * 2 ^ e))"

definition as_dtype :: "np_dtype \<Rightarrow> pyval \<Rightarrow> pyval" where
  "as_dtype t v =
     (case t of
        Float64 \<Rightarrow> (case v of PInt i \<Rightarrow> PFloat (of_int (round_float64 i)) | _ \<Rightarrow> v)
      | _ \<Rightarrow> v)"

definition map_column :: "string \<Rightarrow> (pyval \<Rightarrow> pyval) \<Rightarrow> frame \<Rightarrow> frame" where
  "map_column c f df = df\<lparr>rows := map (\<lambda>r. AList.update c (f (cell r c)) r) (rows df)\<rparr>"

text \<open>The number in a cell of a numeric column, and \<open>sort_values\<close> on such a column.\<close>

definition numr :: "pyval \<Rightarrow> rat" where
  "numr v = (case v of PInt i \<Rightarrow> of_int i | PFloat r \<Rightarrow> r | _ \<Rightarrow> 0)"

definition sort_numeric_desc :: "string \<Rightarrow> row list \<Rightarrow> row list" where
  "sort_numeric_desc column rs = rev (sort_key (\<lambda>r. numr (cell r column)) (rev rs))"

text \<open>
  The function returns its list of items, or the exception that leaves it: \<open>pd.concat\<close>
  (line 261) runs before the common columns are computed and tested. The second binding
  of \<open>combined_df\<close> is the common type that \<open>pd.concat\<close> gives the \<open>_weight\<close> column.
\<close>

definition resolve_conflicts_weighted ::
  "aligned_item list \<Rightarrow> (string \<rightharpoonup> weight) \<Rightarrow> py_error + aligned_item list"
where
  "resolve_conflicts_weighted aligned_data source_weights =
     (let tfs = tabular_frames aligned_data;
          data_frames = map (tag_weight source_weights) tfs
      in if data_frames = [] then Inr aligned_data
         else
           (case pd_concat data_frames of
              Inl e \<Rightarrow> Inl e
            | Inr combined_df \<Rightarrow>
                let combined_df =
                      map_column ''_weight''
                        (as_dtype (common_dtype
                           (map (\<lambda>p. scalar_dtype (weight_of source_weights (fst p))) tfs)))
                        combined_df;
                    key_columns =
                      removeAll ''_weight'' (removeAll ''_source'' (common_columns data_frames))
                in if key_columns = [] then Inr aligned_data
                   else
                     let combined_df =
                           combined_df\<lparr>rows := sort_numeric_desc ''_weight'' (rows combined_df)\<rparr>;
                         resolved_df =
                           combined_df\<lparr>rows := drop_duplicates key_columns (rows combined_df)\<rparr>;
                         resolved_df = drop_columns [''_source'', ''_weight''] resolved_df
                     in Inr [\<lparr>file_name = ''resolved_data'', data = Tabular resolved_df\<rparr>]))"

subsection \<open>Time-based\<close>

text \<open>The loop of the time-based strategy keeps the tables that have a \<open>timestamp\<close> column.\<close>

fun timestamped_frames :: "aligned_item list \<Rightarrow> (string \<times> frame) list" where
  "timestamped_frames [] = []"
| "timestamped_frames (data_dict # rest) =
     (case data data_dict of
        Tabular df \<Rightarrow>
          (if ''timestamp'' \<in> set (columns df)
           then (file_name data_dict, df) # timestamped_frames rest
           else timestamped_frames rest)
      | Nested _ \<Rightarrow> timestamped_frames rest)"

text \<open>\<open>df[c] = values\<close> with one value per row.\<close>

definition assign_column :: "string \<Rightarrow> pyval list \<Rightarrow> frame \<Rightarrow> frame" where
  "assign_column c vs df =
     \<lparr>columns = (if c \<in> set (columns df) then columns df else columns df @ [c]),
      rows = map (\<lambda>(r, v). AList.update c v r) (zip (rows df) vs)\<rparr>"

definition stamp :: "int option \<Rightarrow> pyval" where
  "stamp p = (case p of None \<Rightarrow> PNone | Some t \<Rightarrow> PDatetime t)"

text \<open>\<open>df.dropna(subset=[c])\<close>\<close>

definition dropna :: "string \<Rightarrow> frame \<Rightarrow> frame" where
  "dropna c df = df\<lparr>rows := filter (\<lambda>r. cell r c \<noteq> PNone) (rows df)\<rparr>"

text \<open>
  \<open>pd.to_datetime(column, errors='coerce')\<close> is a function of the pandas library: it
  takes the whole column and gives, for every position, the parsed point in time or
  \<open>NaT\<close> (here \<open>None\<close>). It is a parameter of the model.
\<close>

definition resolve_conflicts_time_based ::
  "(pyval list \<Rightarrow> int option list) \<Rightarrow> aligned_item list \<Rightarrow> aligned_item list"
where
  "resolve_conflicts_time_based to_datetime aligned_data =
     (let data_frames = map tag_source (timestamped_frames aligned_data)
      in if data_frames = [] then aligned_data
         else
           let combined_df = concat_frames data_frames;
               combined_df =
                 assign_column ''timestamp''
                   (map stamp (to_datetime (map (\<lambda>r. cell r ''timestamp'') (rows combined_df))))
                   combined_df;
               combined_df = dropna ''timestamp'' combined_df;
               key_columns =
                 removeAll ''timestamp'' (removeAll ''_source'' (common_columns data_frames))
           in if key_columns = [] then aligned_data
              else
                let combined_df = combined_df\<lparr>rows := sort_values_desc ''timestamp'' (rows combined_df)\<rparr>;
                    resolved_df = combined_df\<lparr>rows := drop_duplicates key_columns (rows combined_df)\<rparr>;
                    resolved_df = drop_columns [''_source'', ''timestamp''] resolved_df
                in [\<lparr>file_name = ''resolved_data'', data = Tabular resolved_df\<rparr>])"

text \<open>
  \<open>resolve_conflicts_time_based\<close> with the exception that leaves it: \<open>pd.concat\<close>
  (line 295) runs before the common columns are computed and tested. Where \<open>pd.concat\<close>
  succeeds, the result is that of the definition above.
\<close>

definition resolve_conflicts_time_based_raising ::
  "(pyval list \<Rightarrow> int option list) \<Rightarrow> aligned_item list \<Rightarrow> py_error + aligned_item list"
where
  "resolve_conflicts_time_based_raising to_datetime aligned_data =
     (let data_frames = map tag_source (timestamped_frames aligned_data)
      in if data_frames = [] then Inr aligned_data
         else
           (case pd_concat data_frames of
              Inl e \<Rightarrow> Inl e
            | Inr combined_df \<Rightarrow> Inr (resolve_conflicts_time_based to_datetime aligned_data)))"

text \<open>The dispatch on the strategy name.\<close>

definition resolve_conflicts ::
  "(pyval list \<Rightarrow> int option list) \<Rightarrow> aligned_item list \<Rightarrow> conflicts \<Rightarrow> string
     \<Rightarrow> (string \<rightharpoonup> weight) \<Rightarrow> string list \<Rightarrow> py_error + aligned_item list"
where
  "resolve_conflicts to_datetime aligned_data conflicts strategy source_weights source_hierarchy =
     (if strategy = ''Manual'' then Inr aligned_data
      else if strategy = ''Hierarchy-based''
           then resolve_conflicts_hierarchy aligned_data source_hierarchy
      else if strategy = ''Weight-based''
           then resolve_conflicts_weighted aligned_data source_weights
      else if strategy = ''Time-based''
           then resolve_conflicts_time_based_raising to_datetime aligned_data
      else Inr aligned_data)"

subsection \<open>Names for what the strategies compute on their way\<close>

text \<open>The rows of the tabular items, each with the name of its source.\<close>

definition source_rows :: "(string \<times> frame) list \<Rightarrow> (string \<times> row) list" where
  "source_rows tfs = concat (map (\<lambda>p. map (Pair (fst p)) (rows (snd p))) tfs)"

definition row_source :: "row \<Rightarrow> string" where
  "row_source r = (case cell r ''_source'' of PStr n \<Rightarrow> n | _ \<Rightarrow> [])"

definition hierarchy_frames :: "aligned_item list \<Rightarrow> string list \<Rightarrow> frame list" where
  "hierarchy_frames aligned_data source_hierarchy =
     map (tag_priority source_hierarchy) (tabular_frames aligned_data)"

definition hierarchy_keys :: "aligned_item list \<Rightarrow> string list \<Rightarrow> string list" where
  "hierarchy_keys aligned_data source_hierarchy =
     removeAll ''_priority'' (removeAll ''_source''
       (common_columns (hierarchy_frames aligned_data source_hierarchy)))"

definition hierarchy_sorted :: "aligned_item list \<Rightarrow> string list \<Rightarrow> row list" where
  "hierarchy_sorted aligned_data source_hierarchy =
     sort_values ''_priority''
       (rows (concat_frames (hierarchy_frames aligned_data source_hierarchy)))"

definition hierarchy_resolved :: "aligned_item list \<Rightarrow> string list \<Rightarrow> frame" where
  "hierarchy_resolved aligned_data source_hierarchy =
     drop_columns [''_source'', ''_priority'']
       \<lparr>columns = columns (concat_frames (hierarchy_frames aligned_data source_hierarchy)),
        rows = drop_duplicates (hierarchy_keys aligned_data source_hierarchy)
                 (hierarchy_sorted aligned_data source_hierarchy)\<rparr>"

definition weighted_frames :: "aligned_item list \<Rightarrow> (string \<rightharpoonup> weight) \<Rightarrow> frame list" where
  "weighted_frames aligned_data source_weights =
     map (tag_weight source_weights) (tabular_frames aligned_data)"

definition weighted_keys :: "aligned_item list \<Rightarrow> (string \<rightharpoonup> weight) \<Rightarrow> string list" where
  "weighted_keys aligned_data source_weights =
     removeAll ''_weight'' (removeAll ''_source''
       (common_columns (weighted_frames aligned_data source_weights)))"

text \<open>The common type of the \<open>_weight\<close> column, and the number it holds for a source.\<close>

definition weighted_dtype :: "aligned_item list \<Rightarrow> (string \<rightharpoonup> weight) \<Rightarrow> np_dtype" where
  "weighted_dtype aligned_data source_weights =
     common_dtype (map (\<lambda>p. scalar_dtype (weight_of source_weights (fst p)))
                       (tabular_frames aligned_data))"

definition stored_weight :: "aligned_item list \<Rightarrow> (string \<rightharpoonup> weight) \<Rightarrow> string \<Rightarrow> rat" where
  "stored_weight aligned_data source_weights name =
     numr (as_dtype (weighted_dtype aligned_data source_weights)
             (weight_cell (weight_of source_weights name)))"

definition weight_value :: "weight \<Rightarrow> rat" where
  "weight_value w = (case w of WInt i \<Rightarrow> of_int i | WFloat r \<Rightarrow> r)"

definition weighted_combined :: "aligned_item list \<Rightarrow> (string \<rightharpoonup> weight) \<Rightarrow> frame" where
  "weighted_combined aligned_data source_weights =
     map_column ''_weight'' (as_dtype (weighted_dtype aligned_data source_weights))
       (concat_frames (weighted_frames aligned_data source_weights))"

definition weighted_sorted :: "aligned_item list \<Rightarrow> (string \<rightharpoonup> weight) \<Rightarrow> row list" where
  "weighted_sorted aligned_data source_weights =
     sort_numeric_desc ''_weight'' (rows (weighted_combined aligned_data source_weights))"

definition weighted_resolved :: "aligned_item list \<Rightarrow> (string \<rightharpoonup> weight) \<Rightarrow> frame" where
  "weighted_resolved aligned_data source_weights =
     drop_columns [''_source'', ''_weight'']
       \<lparr>columns = columns (concat_frames (weighted_frames aligned_data source_weights)),
        rows = drop_duplicates (weighted_keys aligned_data source_weights)
                 (weighted_sorted aligned_data source_weights)\<rparr>"

definition time_frames :: "aligned_item list \<Rightarrow> frame list" where
  "time_frames aligned_data = map tag_source (timestamped_frames aligned_data)"

definition time_keys :: "aligned_item list \<Rightarrow> string list" where
  "time_keys aligned_data =
     removeAll ''timestamp'' (removeAll ''_source'' (common_columns (time_frames aligned_data)))"

text \<open>What \<open>to_datetime\<close> makes of the \<open>timestamp\<close> column of the concatenated table.\<close>

definition time_parsed :: "(pyval list \<Rightarrow> int option list) \<Rightarrow> aligned_item list \<Rightarrow> int option list"
where
  "time_parsed to_datetime aligned_data =
     to_datetime (map (\<lambda>r. cell r ''timestamp'') (rows (concat_frames (time_frames aligned_data))))"

text \<open>The rows that are left after \<open>dropna\<close>.\<close>

definition time_dated :: "(pyval list \<Rightarrow> int option list) \<Rightarrow> aligned_item list \<Rightarrow> row list" where
  "time_dated to_datetime aligned_data =
     rows (dropna ''timestamp''
            (assign_column ''timestamp'' (map stamp (time_parsed to_datetime aligned_data))
               (concat_frames (time_frames aligned_data))))"

definition time_sorted :: "(pyval list \<Rightarrow> int option list) \<Rightarrow> aligned_item list \<Rightarrow> row list" where
  "time_sorted to_datetime aligned_data =
     sort_values_desc ''timestamp'' (time_dated to_datetime aligned_data)"

definition time_resolved :: "(pyval list \<Rightarrow> int option list) \<Rightarrow> aligned_item list \<Rightarrow> frame" where
  "time_resolved to_datetime aligned_data =
     drop_columns [''_source'', ''timestamp'']
       \<lparr>columns = columns (concat_frames (time_frames aligned_data)),
        rows = drop_duplicates (time_keys aligned_data) (time_sorted to_datetime aligned_data)\<rparr>"



subsection \<open>A sample date parser\<close>

text \<open>
  An instance of the parameter \<open>to_datetime\<close> for the examples: it reads \<open>YYYY-MM-DD\<close>
  and numbers the days so that a later date has a larger number; every other value is
  \<open>NaT\<close>.
\<close>

definition digit_of :: "char \<Rightarrow> int option" where
  "digit_of c =
     (let n = (of_char c :: int) in if 48 \<le> n \<and> n \<le> 57 then Some (n - 48) else None)"

definition digits_value :: "string \<Rightarrow> int option" where
  "digits_value s =
     fold (\<lambda>c acc. case acc of None \<Rightarrow> None
                    | Some a \<Rightarrow> (case digit_of c of None \<Rightarrow> None | Some d \<Rightarrow> Some (10 * a + d)))
          s (Some 0)"

definition iso_date :: "pyval \<Rightarrow> int option" where
  "iso_date v =
     (case v of
        PStr s \<Rightarrow>
          (if length s = 10 \<and> s ! 4 = CHR ''-'' \<and> s ! 7 = CHR ''-''
           then (case digits_value (take 4 s) of None \<Rightarrow> None
                 | Some y \<Rightarrow>
                   (case digits_value (take 2 (drop 5 s)) of None \<Rightarrow> None
                    | Some m \<Rightarrow>
                      (case digits_value (drop 8 s) of None \<Rightarrow> None
                       | Some d \<Rightarrow>
                         (if 1 \<le> m \<and> m \<le> 12 \<and> 1 \<le> d \<and> d \<le> 31
                          then Some ((y * 12 + (m - 1)) * 31 + (d - 1))
                          else None))))
           else None)
      | _ \<Rightarrow> None)"

definition iso_to_datetime :: "pyval list \<Rightarrow> int option list" where
  "iso_to_datetime vs = map iso_date vs"



text \<open>A table that shares no column with the others, and one with a repeated column label.\<close>

definition ex_D :: aligned_item where
  "ex_D = \<lparr>file_name = ''D'',
           data = Tabular \<lparr>columns = [''w''], rows = [[(''w'', PInt 7)]]\<rparr>\<rparr>"

definition ex_dup :: aligned_item where
  "ex_dup = \<lparr>file_name = ''A'',
             data = Tabular \<lparr>columns = [''x'', ''x''],
                              rows = [[(''x'', PInt 1), (''x'', PInt 2)]]\<rparr>\<rparr>"

text \<open>
  Inputs whose tables have no repeated column label. On them \<open>pd.concat\<close> does not
  raise.
\<close>

definition unique_labels :: "aligned_item list \<Rightarrow> bool" where
  "unique_labels aligned_data =
     list_all (\<lambda>p. distinct (columns (snd p))) (tabular_frames aligned_data)"

text \<open>Two tables that share only the \<open>timestamp\<close> column, one with a repeated label.\<close>

definition ex_dup_T :: aligned_item where
  "ex_dup_T = \<lparr>file_name = ''A'',
               data = Tabular \<lparr>columns = [''x'', ''x'', ''timestamp''],
                                rows = [[(''x'', PInt 1), (''x'', PInt 2),
                                         (''timestamp'', PStr ''2024-01-01'')]]\<rparr>\<rparr>"

definition ex_D_T :: aligned_item where
  "ex_D_T = \<lparr>file_name = ''D'',
             data = Tabular \<lparr>columns = [''w'', ''timestamp''],
                              rows = [[(''w'', PInt 7), (''timestamp'', PStr ''2024-02-01'')]]\<rparr>\<rparr>"

section \<open>Metadata extraction\<close>

record field_meta =
  dtype :: string
  sample_values :: "pyval list"

type_synonym metadata = "(string \<times> field_meta) list"

text \<open>\<open>type(value).__name__\<close>\<close>

fun type_name :: "pyval \<Rightarrow> string" where
  "type_name PNone = ''NoneType''"
| "type_name (PBool _) = ''bool''"
| "type_name (PInt _) = ''int''"
| "type_name (PFloat _) = ''float''"
| "type_name (PStr _) = ''str''"
| "type_name (PDatetime _) = ''datetime''"

definition max_sample_values :: nat where
  "max_sample_values = 5"

text \<open>The \<open>else\<close> branch of the loop over a dict: the value is neither a dict nor a list.\<close>

definition record_leaf :: "string \<Rightarrow> pyval \<Rightarrow> metadata \<Rightarrow> metadata" where
  "record_leaf current_path v md =
     (case map_of md current_path of
        None \<Rightarrow> AList.update current_path \<lparr>dtype = type_name v, sample_values = [v]\<rparr> md
      | Some m \<Rightarrow>
          (if length (sample_values m) < max_sample_values
           then AList.update current_path (m\<lparr>sample_values := sample_values m @ [v]\<rparr>) md
           else md))"

text \<open>
  \<open>traverse\<close> with the dictionary \<open>metadata\<close> of the enclosing function passed along;
  \<open>traverse_items\<close> is its loop over \<open>data.items()\<close>, \<open>traverse_list\<close> its loop over
  the elements of a list.
\<close>

fun traverse :: "nested \<Rightarrow> string \<Rightarrow> metadata \<Rightarrow> metadata"
  and traverse_items :: "(string \<times> nested) list \<Rightarrow> string \<Rightarrow> metadata \<Rightarrow> metadata"
  and traverse_list :: "nested list \<Rightarrow> string \<Rightarrow> metadata \<Rightarrow> metadata"
where
  "traverse (Dict kvs) path md = traverse_items kvs path md"
| "traverse (Seq xs) path md = traverse_list xs path md"
| "traverse (Leaf v) path md = md"
| "traverse_items [] path md = md"
| "traverse_items ((key, val) # rest) path md =
     (let current_path = (if path \<noteq> [] then path @ ''.'' @ key else key)
      in traverse_items rest path
           (case val of
              Leaf v \<Rightarrow> record_leaf current_path v md
            | _ \<Rightarrow> traverse val current_path md))"
| "traverse_list [] path md = md"
| "traverse_list (item # rest) path md = traverse_list rest path (traverse item path md)"

text \<open>
  \<open>extract_fields_metadata\<close>. The storage type pandas reports for a column
  (\<open>str(data[column].dtype)\<close>) is a parameter.
\<close>

definition extract_fields_metadata :: "(frame \<Rightarrow> string \<Rightarrow> string) \<Rightarrow> source_data \<Rightarrow> metadata"
where
  "extract_fields_metadata column_dtype d =
     (case d of
        Tabular df \<Rightarrow>
          fold (\<lambda>column md.
                  AList.update column
                    \<lparr>dtype = column_dtype df column,
                     sample_values = take max_sample_values (column_values column (rows df))\<rparr> md)
               (columns df) []
      | Nested n \<Rightarrow> traverse n [] [])"

text \<open>
  Every leaf the traversal reaches, with the path accumulated on the way to it, in the
  order of the traversal: a dict key extends the path, a list element does not.
\<close>

fun visited :: "nested \<Rightarrow> string \<Rightarrow> (string \<times> pyval) list"
  and visited_items :: "(string \<times> nested) list \<Rightarrow> string \<Rightarrow> (string \<times> pyval) list"
  and visited_list :: "nested list \<Rightarrow> string \<Rightarrow> (string \<times> pyval) list"
where
  "visited (Dict kvs) path = visited_items kvs path"
| "visited (Seq xs) path = visited_list xs path"
| "visited (Leaf v) path = [(path, v)]"
| "visited_items [] path = []"
| "visited_items ((key, val) # rest) path =
     visited val (if path \<noteq> [] then path @ ''.'' @ key else key) @ visited_items rest path"
| "visited_list [] path = []"
| "visited_list (item # rest) path = visited item path @ visited_list rest path"

text \<open>
  The leaves among them that are the value of a dict key; a leaf that is itself an
  element of a list, or the whole input, is not among these.
\<close>

fun keyed_leaves :: "nested \<Rightarrow> string \<Rightarrow> (string \<times> pyval) list"
  and keyed_leaves_items :: "(string \<times> nested) list \<Rightarrow> string \<Rightarrow> (string \<times> pyval) list"
  and keyed_leaves_list :: "nested list \<Rightarrow> string \<Rightarrow> (string \<times> pyval) list"
where
  "keyed_leaves (Dict kvs) path = keyed_leaves_items kvs path"
| "keyed_leaves (Seq xs) path = keyed_leaves_list xs path"
| "keyed_leaves (Leaf v) path = []"
| "keyed_leaves_items [] path = []"
| "keyed_leaves_items ((key, val) # rest) path =
     (let current_path = (if path \<noteq> [] then path @ ''.'' @ key else key)
      in (case val of Leaf v \<Rightarrow> [(current_path, v)] | _ \<Rightarrow> keyed_leaves val current_path)
         @ keyed_leaves_items rest path)"
| "keyed_leaves_list [] path = []"
| "keyed_leaves_list (item # rest) path = keyed_leaves item path @ keyed_leaves_list rest path"

definition values_at :: "(string \<times> pyval) list \<Rightarrow> string \<Rightarrow> pyval list" where
  "values_at leaves path = map snd (filter (\<lambda>pv. fst pv = path) leaves)"

text \<open>Nested inputs for the examples.\<close>

definition ex_records :: nested where
  "ex_records =
     Seq [Dict [(''a'', Leaf (PInt 1))], Dict [(''a'', Leaf (PInt 1))],
          Dict [(''a'', Leaf (PInt 2))], Dict [(''a'', Leaf (PInt 3))],
          Dict [(''a'', Leaf (PInt 4))], Dict [(''a'', Leaf (PInt 5))],
          Dict [(''a'', Leaf (PInt 6))]]"

definition ex_tags :: nested where
  "ex_tags = Dict [(''tags'', Seq [Leaf (PStr ''x''), Leaf (PStr ''y'')])]"

definition ex_user :: nested where
  "ex_user =
     Dict [(''user'', Dict [(''name'', Leaf (PStr ''n'')),
                            (''tags'', Seq [Leaf (PStr ''x'')]),
                            (''posts'', Seq [Dict [(''id'', Leaf (PInt 1))],
                                            Dict [(''id'', Leaf (PInt 2))]])])]"

section \<open>Type conversion\<close>

text \<open>
  The exceptions of the built-in conversions. \<open>int(s)\<close> for a string: surrounding
  whitespace is ignored, a sign may come first, and the digits may be grouped by single
  underscores; anything else is a \<open>ValueError\<close>. \<open>str(i)\<close> for an int is its decimal
  numeral. (Digits outside ASCII are left out.)
\<close>

definition is_space :: "char \<Rightarrow> bool" where
  "is_space c = (c \<in> set [CHR '' '', CHR 0x09, CHR 0x0A, CHR 0x0B, CHR 0x0C, CHR 0x0D])"

definition strip :: "string \<Rightarrow> string" where
  "strip s = rev (dropWhile is_space (rev (dropWhile is_space s)))"

fun digits_body :: "int \<Rightarrow> string \<Rightarrow> int option" where
  "digits_body acc [] = None"
| "digits_body acc [c] = (case digit_of c of None \<Rightarrow> None | Some d \<Rightarrow> Some (10 * acc + d))"
| "digits_body acc (c # c' # cs) =
     (case digit_of c of
        None \<Rightarrow> None
      | Some d \<Rightarrow>
          (if c' = CHR ''_''
           then (if cs = [] then None else digits_body (10 * acc + d) cs)
           else digits_body (10 * acc + d) (c' # cs)))"

definition parse_int :: "string \<Rightarrow> int option" where
  "parse_int s =
     (case strip s of
        [] \<Rightarrow> None
      | c # cs \<Rightarrow>
          (if c = CHR ''-'' then map_option uminus (digits_body 0 cs)
           else if c = CHR ''+'' then digits_body 0 cs
           else digits_body 0 (c # cs)))"

function show_nat :: "nat \<Rightarrow> string" where
  "show_nat n =
     (if n < 10 then [char_of (48 + int n)]
      else show_nat (n div 10) @ [char_of (48 + int (n mod 10))])"
  by pat_completeness auto
termination
  by (relation "measure id") auto

declare show_nat.simps [simp del]

definition show_int :: "int \<Rightarrow> string" where
  "show_int i = (if i < 0 then CHR ''-'' # show_nat (nat (- i)) else show_nat (nat i))"


text \<open>
  Conversions of the Python library whose results involve floating-point numbers or the
  parsing of dates are parameters of the model: \<open>float(value)\<close>,
  \<open>datetime.strptime(value, "%Y-%m-%d")\<close>, and \<open>str(value)\<close> for a float or a datetime.
  So is the interpreter's limit on the number of digits in a conversion between int and
  str (\<open>sys.get_int_max_str_digits()\<close>: 4300 by default from CPython 3.11 on, 0 when
  there is no limit): a conversion with more digits raises \<open>ValueError\<close>.
\<close>

record pylib =
  lib_float :: "pyval \<Rightarrow> py_error + pyval"
  lib_strptime :: "pyval \<Rightarrow> py_error + pyval"
  lib_str :: "pyval \<Rightarrow> string"
  max_str_digits :: nat

definition exceeds_limit :: "pylib \<Rightarrow> nat \<Rightarrow> bool" where
  "exceeds_limit lib digits = (0 < max_str_digits lib \<and> max_str_digits lib < digits)"

definition count_digits :: "string \<Rightarrow> nat" where
  "count_digits s = length (filter (\<lambda>c. digit_of c \<noteq> None) s)"

text \<open>\<open>int(value)\<close>\<close>

fun py_int :: "pylib \<Rightarrow> pyval \<Rightarrow> py_error + pyval" where
  "py_int lib (PInt i) = Inr (PInt i)"
| "py_int lib (PBool b) = Inr (PInt (if b then 1 else 0))"
| "py_int lib (PFloat r) = Inr (PInt (if r < 0 then - \<lfloor>- r\<rfloor> else \<lfloor>r\<rfloor>))"
| "py_int lib (PStr s) =
     (case parse_int s of
        None \<Rightarrow> Inl ValueError
      | Some i \<Rightarrow> if exceeds_limit lib (count_digits s) then Inl ValueError else Inr (PInt i))"
| "py_int lib PNone = Inl TypeError"
| "py_int lib (PDatetime t) = Inl TypeError"

text \<open>\<open>str(value)\<close>, which is also how an f-string formats \<open>{value}\<close>\<close>

fun py_str :: "pylib \<Rightarrow> pyval \<Rightarrow> py_error + string" where
  "py_str lib PNone = Inr ''None''"
| "py_str lib (PBool b) = Inr (if b then ''True'' else ''False'')"
| "py_str lib (PInt i) =
     (if exceeds_limit lib (length (show_nat (nat \<bar>i\<bar>))) then Inl ValueError
      else Inr (show_int i))"
| "py_str lib (PStr s) = Inr s"
| "py_str lib (PFloat r) = Inr (lib_str lib (PFloat r))"
| "py_str lib (PDatetime t) = Inr (lib_str lib (PDatetime t))"

text \<open>
  What \<open>log_error\<close> is told on a failed conversion: the value, the target type and the
  exception. The function returns its result together with the reports it emitted, or
  the exception that leaves it: the \<open>except\<close> branch formats \<open>{value}\<close> into the message
  before it reports, and an exception raised there is not caught.
\<close>

record conversion_report =
  failed_value :: pyval
  target_type :: string
  failure :: py_error

definition convert_value_to_type ::
  "pylib \<Rightarrow> pyval \<Rightarrow> string \<Rightarrow> py_error + pyval \<times> conversion_report list" where
  "convert_value_to_type lib v new_type =
     (case (if new_type = ''int'' then py_int lib v
            else if new_type = ''float'' then lib_float lib v
            else if new_type = ''str''
                 then (case py_str lib v of Inl e \<Rightarrow> Inl e | Inr s \<Rightarrow> Inr (PStr s))
            else if new_type = ''datetime'' then lib_strptime lib v
            else Inr v)
      of Inr converted \<Rightarrow> Inr (converted, [])
       | Inl e \<Rightarrow>
           (case py_str lib v of
              Inl e' \<Rightarrow> Inl e'
            | Inr message_value \<Rightarrow>
                Inr (v, [\<lparr>failed_value = v, target_type = new_type, failure = e\<rparr>])))"

text \<open>
  A library instance for the examples: it refuses every float and date conversion and has
  the default digit limit of CPython.
\<close>

definition ex_lib :: pylib where
  "ex_lib = \<lparr>lib_float = (\<lambda>v. Inl ValueError), lib_strptime = (\<lambda>v. Inl ValueError),
             lib_str = (\<lambda>v. ''?''), max_str_digits = 4300\<rparr>"

section \<open>Properties of conflict detection\<close>

subsection \<open>Auxiliary facts on tables\<close>

lemma set_unique: "set (unique xs) = set xs"
  by (simp add: unique_def)



lemma cell_update: "cell (AList.update c v r) c' = (if c' = c then v else cell r c')"
  by (simp add: cell_def update_conv')

lemma map_of_tabulate: "map_of (map (\<lambda>c. (c, f c)) cols) c = (if c \<in> set cols then Some (f c) else None)"
  by (induction cols) auto

lemma cell_reindex: "cell (reindex cols r) c = (if c \<in> set cols then cell r c else PNone)"
  by (simp add: cell_def reindex_def map_of_tabulate)














lemma length_tabular_frames: "length (tabular_frames ad) = length (filter is_tabular ad)"
  by (induction ad) (auto simp: is_tabular_def split: source_data.splits)

subsection \<open>Claims on conflict detection\<close>






subsection \<open>Auxiliary facts on sorting and de-duplication\<close>

lemma drop_duplicates_subset: "set (drop_duplicates ks rs) \<subseteq> set rs"
  by (induction ks rs rule: drop_duplicates.induct) auto

lemma drop_duplicates_keys:
  "row_key ks ` set (drop_duplicates ks rs) = row_key ks ` set rs"
  by (induction ks rs rule: drop_duplicates.induct) auto

lemma drop_duplicates_distinct: "distinct (map (row_key ks) (drop_duplicates ks rs))"
proof (induction ks rs rule: drop_duplicates.induct)
  case (1 ks)
  then show ?case by simp
next
  case (2 ks r rs)
  have "row_key ks r \<notin> row_key ks ` set (filter (\<lambda>r'. row_key ks r' \<noteq> row_key ks r) rs)"
    by auto
  then have "row_key ks r \<notin> row_key ks ` set (drop_duplicates ks (filter (\<lambda>r'. row_key ks r' \<noteq> row_key ks r) rs))"
    unfolding drop_duplicates_keys .
  with 2 show ?case by simp
qed

lemma filter_split:
  "filter P xs = pre @ w # post \<Longrightarrow> \<exists>us vs. xs = us @ w # vs \<and> filter P us = pre"
proof (induction xs arbitrary: pre)
  case Nil
  then show ?case by simp
next
  case (Cons x xs)
  show ?case
  proof (cases "P x")
    case False
    with Cons.prems have "filter P xs = pre @ w # post" by simp
    from Cons.IH [OF this] obtain us vs where "xs = us @ w # vs" "filter P us = pre" by blast
    with False have "x # xs = (x # us) @ w # vs \<and> filter P (x # us) = pre" by simp
    then show ?thesis by blast
  next
    case True
    show ?thesis
    proof (cases pre)
      case Nil
      with True Cons.prems have "x # xs = [] @ w # xs \<and> filter P [] = pre" by simp
      then show ?thesis by blast
    next
      case (Cons p pre')
      with True Cons.prems have "filter P xs = pre' @ w # post" and px: "p = x" by simp_all
      from Cons.IH [OF this(1)] obtain us vs where "xs = us @ w # vs" "filter P us = pre'" by blast
      with True Cons px have "x # xs = (x # us) @ w # vs \<and> filter P (x # us) = pre" by simp
      then show ?thesis by blast
    qed
  qed
qed

lemma drop_duplicates_first:
  "w \<in> set (drop_duplicates ks rs) \<Longrightarrow>
     \<exists>pre post. rs = pre @ w # post \<and> (\<forall>r \<in> set pre. row_key ks r \<noteq> row_key ks w)"
proof (induction ks rs rule: drop_duplicates.induct)
  case (1 ks)
  then show ?case by simp
next
  case (2 ks r rs)
  show ?case
  proof (cases "w = r")
    case True
    then have "r # rs = [] @ w # rs \<and> (\<forall>r \<in> set []. row_key ks r \<noteq> row_key ks w)" by simp
    then show ?thesis by blast
  next
    case False
    let ?rs' = "filter (\<lambda>r'. row_key ks r' \<noteq> row_key ks r) rs"
    from False 2 have win: "w \<in> set (drop_duplicates ks ?rs')" by simp
    with 2 obtain pre post where split: "?rs' = pre @ w # post"
      and pre: "\<forall>r \<in> set pre. row_key ks r \<noteq> row_key ks w" by blast
    from win drop_duplicates_subset have "w \<in> set ?rs'" by blast
    then have wk: "row_key ks w \<noteq> row_key ks r" and "w \<in> set rs" by auto
    let ?P = "\<lambda>r'. row_key ks r' \<noteq> row_key ks r"
    from filter_split [OF split] obtain us vs where rs: "rs = us @ w # vs"
      and us: "filter ?P us = pre" by blast
    have "row_key ks u \<noteq> row_key ks w" if "u \<in> set (r # us)" for u
    proof (cases "?P u")
      case True
      with that have "u \<in> set (filter ?P us)" by auto
      with us pre show ?thesis by blast
    next
      case False
      with wk show ?thesis by simp
    qed
    moreover have "r # rs = (r # us) @ w # vs"
      by (simp add: rs)
    ultimately show ?thesis by blast
  qed
qed

lemma drop_duplicates_sorted_min:
  "sorted (map f rs) \<Longrightarrow> w \<in> set (drop_duplicates ks rs) \<Longrightarrow> r \<in> set rs \<Longrightarrow>
     row_key ks r = row_key ks w \<Longrightarrow> (f w :: 'b::linorder) \<le> f r"
proof (induction ks rs rule: drop_duplicates.induct)
  case (1 ks)
  then show ?case by simp
next
  case (2 ks x xs)
  let ?xs' = "filter (\<lambda>r'. row_key ks r' \<noteq> row_key ks x) xs"
  show ?case
  proof (cases "w = x")
    case True
    with 2 show ?thesis by auto
  next
    case False
    with 2 have win: "w \<in> set (drop_duplicates ks ?xs')" by simp
    with drop_duplicates_subset have "w \<in> set ?xs'" by blast
    then have wk: "row_key ks w \<noteq> row_key ks x" by simp
    with 2 have "r \<in> set ?xs'" by auto
    moreover have "sorted (map f ?xs')"
      using 2(2) by (simp add: sorted_filter)
    ultimately show ?thesis using 2 win by blast
  qed
qed


subsection \<open>The rank of a source\<close>

lemma fold_priority_notin:
  "n \<notin> set h \<Longrightarrow>
     map_of (fold (\<lambda>(idx, source) d. AList.update source idx d) (enumerate k h) d0) n = map_of d0 n"
  by (induction h arbitrary: k d0) (auto simp: update_conv')

lemma fold_priority_nth:
  "distinct h \<Longrightarrow> i < length h \<Longrightarrow>
     map_of (fold (\<lambda>(idx, source) d. AList.update source idx d) (enumerate k h) d0) (h ! i)
       = Some (k + i)"
proof (induction h arbitrary: k d0 i)
  case Nil
  then show ?case by simp
next
  case (Cons x xs)
  show ?case
  proof (cases i)
    case 0
    with Cons.prems show ?thesis by (simp add: fold_priority_notin update_conv')
  next
    case (Suc j)
    with Cons.prems have "distinct xs" "j < length xs" by simp_all
    from Cons.IH [OF this] show ?thesis by (simp add: Suc)
  qed
qed

lemma fold_priority_dom:
  "fst ` set (fold (\<lambda>(idx, source) d. AList.update source idx d) (enumerate k h) d0)
     = fst ` set d0 \<union> set h"
  by (induction h arbitrary: k d0) (auto simp: dom_update)

lemma fold_priority_distinct:
  "distinct (map fst d0) \<Longrightarrow>
   distinct (map fst (fold (\<lambda>(idx, source) d. AList.update source idx d) (enumerate k h) d0))"
  by (induction h arbitrary: k d0) (auto simp: distinct_update)

lemma length_source_priority: "length (source_priority h) = card (set h)"
proof -
  have d: "distinct (map fst (source_priority h))"
    unfolding source_priority_def by (rule fold_priority_distinct) simp
  have "card (set h) = card (set (map fst (source_priority h)))"
    by (simp add: source_priority_def fold_priority_dom)
  also have "\<dots> = length (map fst (source_priority h))"
    using d by (rule distinct_card)
  finally show ?thesis by simp
qed

lemma priority_of_listed:
  "distinct h \<Longrightarrow> i < length h \<Longrightarrow> priority_of h (h ! i) = i"
  by (simp add: priority_of_def source_priority_def fold_priority_nth)

lemma priority_of_unlisted:
  assumes "n \<notin> set h"
  shows "priority_of h n = card (set h)"
proof -
  have "map_of (source_priority h) n = None"
    using assms by (simp add: source_priority_def fold_priority_notin)
  then show ?thesis by (simp add: priority_of_def length_source_priority)
qed

subsection \<open>Auxiliary facts on the concatenated table\<close>

lemma cell_strip:
  "cell (filter (\<lambda>p. fst p \<notin> set cs) r) c = (if c \<in> set cs then PNone else cell r c)"
proof -
  have "map_of (filter (\<lambda>p. fst p \<notin> set cs) r) c = (if c \<in> set cs then None else map_of r c)"
    by (induction r) auto
  then show ?thesis by (simp add: cell_def)
qed

lemma columns_concat_frames: "set (columns (concat_frames fs)) = (\<Union>f \<in> set fs. set (columns f))"
  by (simp add: concat_frames_def Let_def set_unique)

lemma common_columns_in_all:
  "c \<in> set (common_columns fs) \<Longrightarrow> f \<in> set fs \<Longrightarrow> c \<in> set (columns f)"
  by (cases fs) (auto simp: common_columns_def set_unique)

lemma common_columns_Nil: "common_columns [] = []"
  by (simp add: common_columns_def)

lemma common_columns_in_concat:
  assumes "c \<in> set (common_columns fs)"
  shows "c \<in> set (columns (concat_frames fs))"
proof (cases fs)
  case Nil
  with assms show ?thesis by (simp add: common_columns_Nil)
next
  case (Cons f fs')
  with assms have "c \<in> set (columns f)" using common_columns_in_all [of c fs f] by simp
  with Cons show ?thesis by (auto simp: columns_concat_frames)
qed

lemma tagged_rows:
  assumes "\<And>p. rows (tg p) = map (g (fst p)) (rows (snd p))"
  shows "rows (concat_frames (map tg tfs)) =
           map (\<lambda>q. reindex (columns (concat_frames (map tg tfs))) (g (fst q) (snd q)))
               (source_rows tfs)"
proof -
  have "concat (map (\<lambda>f. map (reindex cols) (rows f)) (map tg tfs)) =
          map (\<lambda>q. reindex cols (g (fst q) (snd q))) (source_rows tfs)" for cols
    by (induction tfs) (simp_all add: source_rows_def assms comp_def)
  then show ?thesis by (simp add: concat_frames_def Let_def)
qed

lemma source_rows_frame:
  "q \<in> set (source_rows tfs) \<Longrightarrow> \<exists>p \<in> set tfs. fst p = fst q \<and> snd q \<in> set (rows (snd p))"
proof -
  assume "q \<in> set (source_rows tfs)"
  then obtain p where "p \<in> set tfs" and "q \<in> Pair (fst p) ` set (rows (snd p))"
    by (auto simp: source_rows_def)
  then have "p \<in> set tfs \<and> fst p = fst q \<and> snd q \<in> set (rows (snd p))" by auto
  then show ?thesis by blast
qed

lemma row_key_cong:
  "(\<And>c. c \<in> set ks \<Longrightarrow> cell r c = cell r' c) \<Longrightarrow> row_key ks r = row_key ks r'"
  by (simp add: row_key_def)

lemma set_sort_values: "set (sort_values c rs) = set rs"
  by (simp add: sort_values_def)

lemma mset_sort_values: "mset (sort_values c rs) = mset rs"
  by (simp add: sort_values_def)

lemma sorted_sort_values: "sorted (map (\<lambda>r. num (cell r c)) (sort_values c rs))"
  by (simp add: sort_values_def)




lemma sorted_uminus_rev:
  fixes g :: "'a \<Rightarrow> 'b::linordered_ab_group_add"
  shows "sorted (map (\<lambda>r. - g r) rs) \<Longrightarrow> sorted (rev (map g rs))"
proof -
  assume "sorted (map (\<lambda>r. - g r) rs)"
  then have "sorted_wrt (\<lambda>x y. g y \<le> g x) rs" by (simp add: sorted_wrt_map)
  then have "sorted_wrt (\<lambda>x y. g x \<le> g y) (rev rs)" by (simp add: sorted_wrt_rev)
  then show ?thesis by (simp add: sorted_wrt_map rev_map)
qed

text \<open>
  The common shape of the three strategies: the rows \<open>F q\<close> of the concatenated table
  stand for the source rows \<open>orig q\<close>, they are sorted by \<open>f\<close>, the first row per key
  is kept and the bookkeeping columns \<open>B\<close> are removed.
\<close>

lemma keep_first_winners:
  fixes F :: "'q \<Rightarrow> row" and orig :: "'q \<Rightarrow> row" and m :: "'q \<Rightarrow> 'b::linorder"
  assumes S: "set S = F ` set Q" and sorted: "sorted (map f S)"
    and f: "\<And>q. q \<in> set Q \<Longrightarrow> f (F q) = m q"
    and cells: "\<And>q c. q \<in> set Q \<Longrightarrow> c \<in> set cols \<Longrightarrow> c \<notin> set B \<Longrightarrow>
                  cell (F q) c = cell (orig q) c"
    and K: "set K \<subseteq> set cols - set B"
  defines "out \<equiv> map (filter (\<lambda>p. fst p \<notin> set B)) (drop_duplicates K S)"
  shows "\<forall>w' \<in> set out. \<exists>q \<in> set Q.
            (\<forall>c \<in> set cols - set B. cell w' c = cell (orig q) c) \<and>
            (\<forall>q' \<in> set Q. row_key K (orig q') = row_key K (orig q) \<longrightarrow> m q \<le> m q')"
    and "distinct (map (row_key K) out)"
    and "row_key K ` set out = row_key K ` orig ` set Q"
proof -
  let ?strip = "filter (\<lambda>p. fst p \<notin> set B) :: row \<Rightarrow> row"
  have key_F: "row_key K (F q) = row_key K (orig q)" if "q \<in> set Q" for q
    using that K by (intro row_key_cong cells) auto
  have key_strip: "row_key K (?strip r) = row_key K r" for r
    using K by (intro row_key_cong) (auto simp: cell_strip)
  have keys_out: "map (row_key K) out = map (row_key K) (drop_duplicates K S)"
    by (simp add: out_def key_strip)
  show "distinct (map (row_key K) out)"
    unfolding keys_out by (rule drop_duplicates_distinct)
  have "row_key K ` set out = row_key K ` set (drop_duplicates K S)"
    using keys_out by (metis set_map)
  also have "\<dots> = row_key K ` F ` set Q"
    by (simp add: drop_duplicates_keys S)
  also have "\<dots> = row_key K ` orig ` set Q"
    by (simp add: image_image key_F)
  finally show "row_key K ` set out = row_key K ` orig ` set Q" .
  show "\<forall>w' \<in> set out. \<exists>q \<in> set Q.
            (\<forall>c \<in> set cols - set B. cell w' c = cell (orig q) c) \<and>
            (\<forall>q' \<in> set Q. row_key K (orig q') = row_key K (orig q) \<longrightarrow> m q \<le> m q')"
  proof
    fix w' assume "w' \<in> set out"
    then obtain w where w: "w \<in> set (drop_duplicates K S)" and w': "w' = ?strip w"
      by (auto simp: out_def)
    from w drop_duplicates_subset have "w \<in> set S" by blast
    with S obtain q where q: "q \<in> set Q" and wq: "w = F q" by auto
    have "\<forall>c \<in> set cols - set B. cell w' c = cell (orig q) c"
      by (simp add: w' wq cell_strip cells q)
    moreover have "m q \<le> m q'"
      if q': "q' \<in> set Q" and same: "row_key K (orig q') = row_key K (orig q)" for q'
    proof -
      from q' S have "F q' \<in> set S" by auto
      moreover have "row_key K (F q') = row_key K w"
        by (simp add: key_F q' q wq same)
      ultimately have "f w \<le> f (F q')"
        using drop_duplicates_sorted_min [OF sorted w] by blast
      then show ?thesis by (simp add: wq f q q')
    qed
    ultimately show "\<exists>q \<in> set Q.
            (\<forall>c \<in> set cols - set B. cell w' c = cell (orig q) c) \<and>
            (\<forall>q' \<in> set Q. row_key K (orig q') = row_key K (orig q) \<longrightarrow> m q \<le> m q')"
      using q by blast
  qed
qed

subsection \<open>Hierarchy-based resolution\<close>

lemma rows_tag_priority:
  "rows (tag_priority h p) =
     map (\<lambda>r0. AList.update ''_priority'' (PInt (int (priority_of h (fst p))))
                (AList.update ''_source'' (PStr (fst p)) r0)) (rows (snd p))"
  by (simp add: tag_priority_def set_column_def)

lemma columns_tag_priority:
  "set (columns (tag_priority h p)) = set (columns (snd p)) \<union> {''_source'', ''_priority''}"
  by (auto simp: tag_priority_def set_column_def)

lemma hierarchy_rows:
  "rows (concat_frames (hierarchy_frames ad h)) =
     map (\<lambda>q. reindex (columns (concat_frames (hierarchy_frames ad h)))
                (AList.update ''_priority'' (PInt (int (priority_of h (fst q))))
                   (AList.update ''_source'' (PStr (fst q)) (snd q))))
         (source_rows (tabular_frames ad))"
  unfolding hierarchy_frames_def
  by (rule tagged_rows) (rule rows_tag_priority)

lemma hierarchy_labels:
  assumes "q \<in> set (source_rows (tabular_frames ad))"
  shows "''_source'' \<in> set (columns (concat_frames (hierarchy_frames ad h)))"
    and "''_priority'' \<in> set (columns (concat_frames (hierarchy_frames ad h)))"
proof -
  from source_rows_frame [OF assms] obtain p where "p \<in> set (tabular_frames ad)" by blast
  then have "tag_priority h p \<in> set (hierarchy_frames ad h)"
    by (simp add: hierarchy_frames_def)
  then show "''_source'' \<in> set (columns (concat_frames (hierarchy_frames ad h)))"
    and "''_priority'' \<in> set (columns (concat_frames (hierarchy_frames ad h)))"
    unfolding columns_concat_frames using columns_tag_priority [of h p] by blast+
qed

lemma hierarchy_keys_plain:
  assumes "c \<in> set (hierarchy_keys ad h)"
  shows "c \<noteq> ''_source''" and "c \<noteq> ''_priority''"
    and "c \<in> set (columns (concat_frames (hierarchy_frames ad h)))"
  using assms by (auto simp: hierarchy_keys_def common_columns_in_concat)

text \<open>The row of the concatenated table that a source row becomes.\<close>

lemma hierarchy_row_cells:
  fixes h :: "string list" and ad :: "aligned_item list" and q :: "string \<times> row"
  assumes "q \<in> set (source_rows (tabular_frames ad))"
  defines "r \<equiv> reindex (columns (concat_frames (hierarchy_frames ad h)))
                (AList.update ''_priority'' (PInt (int (priority_of h (fst q))))
                   (AList.update ''_source'' (PStr (fst q)) (snd q)))"
  shows "cell r ''_source'' = PStr (fst q)"
    and "cell r ''_priority'' = PInt (int (priority_of h (fst q)))"
    and "c \<in> set (columns (concat_frames (hierarchy_frames ad h))) \<Longrightarrow>
           c \<noteq> ''_source'' \<Longrightarrow> c \<noteq> ''_priority'' \<Longrightarrow> cell r c = cell (snd q) c"
  using hierarchy_labels [OF assms(1), of h]
  by (simp_all add: r_def cell_reindex cell_update)

lemma frame_rows_update: "df\<lparr>rows := rs\<rparr> = \<lparr>columns = columns df, rows = rs\<rparr>"
  by (cases df) simp

lemma hierarchy_frames_nonempty:
  "hierarchy_keys ad h \<noteq> [] \<Longrightarrow> hierarchy_frames ad h \<noteq> []"
  by (auto simp: hierarchy_keys_def common_columns_Nil)

lemma distinct_set_column:
  "distinct (columns df) \<Longrightarrow> distinct (columns (set_column c v df))"
  by (simp add: set_column_def)

lemma pd_concat_distinct:
  "list_all (\<lambda>df. distinct (columns df)) dfs \<Longrightarrow> pd_concat dfs = Inr (concat_frames dfs)"
  by (auto simp: pd_concat_def list_all_iff list_ex_iff)

lemma hierarchy_concat:
  "unique_labels ad \<Longrightarrow>
     pd_concat (hierarchy_frames ad h) = Inr (concat_frames (hierarchy_frames ad h))"
  by (rule pd_concat_distinct)
     (simp add: unique_labels_def hierarchy_frames_def list_all_iff tag_priority_def
        distinct_set_column)

lemma resolve_conflicts_hierarchy_unfold:
  "unique_labels ad \<Longrightarrow> hierarchy_keys ad h \<noteq> [] \<Longrightarrow>
     resolve_conflicts_hierarchy ad h =
       Inr [\<lparr>file_name = ''resolved_data'', data = Tabular (hierarchy_resolved ad h)\<rparr>]"
  using hierarchy_frames_nonempty [of ad h] hierarchy_concat [of ad h]
  by (simp add: resolve_conflicts_hierarchy_def Let_def hierarchy_resolved_def
        hierarchy_sorted_def hierarchy_keys_def hierarchy_frames_def frame_rows_update)


lemma hierarchy_resolved_winners:
  shows "\<forall>w' \<in> set (rows (hierarchy_resolved ad h)).
           \<exists>q \<in> set (source_rows (tabular_frames ad)).
             (\<forall>c \<in> set (columns (hierarchy_resolved ad h)). cell w' c = cell (snd q) c) \<and>
             (\<forall>q' \<in> set (source_rows (tabular_frames ad)).
                 row_key (hierarchy_keys ad h) (snd q') = row_key (hierarchy_keys ad h) (snd q)
                 \<longrightarrow> priority_of h (fst q) \<le> priority_of h (fst q'))"
    and "distinct (map (row_key (hierarchy_keys ad h)) (rows (hierarchy_resolved ad h)))"
    and "row_key (hierarchy_keys ad h) ` set (rows (hierarchy_resolved ad h)) =
           row_key (hierarchy_keys ad h) ` snd ` set (source_rows (tabular_frames ad))"
proof -
  let ?Q = "source_rows (tabular_frames ad)"
  let ?cols = "columns (concat_frames (hierarchy_frames ad h))"
  let ?F = "\<lambda>q. reindex ?cols
                (AList.update ''_priority'' (PInt (int (priority_of h (fst q))))
                   (AList.update ''_source'' (PStr (fst q)) (snd q)))"
  let ?B = "[''_source'', ''_priority'']"
  let ?K = "hierarchy_keys ad h"
  let ?f = "\<lambda>r. num (cell r ''_priority'')"
  let ?m = "\<lambda>q :: string \<times> row. int (priority_of h (fst q))"
  have S: "set (hierarchy_sorted ad h) = ?F ` set ?Q"
    by (simp add: hierarchy_sorted_def set_sort_values hierarchy_rows)
  have sorted: "sorted (map ?f (hierarchy_sorted ad h))"
    unfolding hierarchy_sorted_def by (rule sorted_sort_values)
  have f: "?f (?F q) = ?m q" if "q \<in> set ?Q" for q
    using hierarchy_row_cells(2) [OF that, of h] by (simp add: num_def)
  have cells: "cell (?F q) c = cell (snd q) c"
    if "q \<in> set ?Q" "c \<in> set ?cols" "c \<notin> set ?B" for q c
    using hierarchy_row_cells(3) [OF that(1), of c h] that by simp
  have K: "set ?K \<subseteq> set ?cols - set ?B"
    using hierarchy_keys_plain [of _ ad h] by auto
  have rows: "rows (hierarchy_resolved ad h) =
        map (filter (\<lambda>p. fst p \<notin> set ?B)) (drop_duplicates ?K (hierarchy_sorted ad h))"
    by (simp add: hierarchy_resolved_def drop_columns_def)
  have cols: "set (columns (hierarchy_resolved ad h)) = set ?cols - set ?B"
    by (auto simp: hierarchy_resolved_def drop_columns_def)
  note kf = keep_first_winners [where F = ?F and orig = snd and m = ?m and f = ?f
      and Q = ?Q and cols = ?cols and B = ?B and K = ?K, OF S sorted f cells K, folded rows]
  show "\<forall>w' \<in> set (rows (hierarchy_resolved ad h)).
           \<exists>q \<in> set (source_rows (tabular_frames ad)).
             (\<forall>c \<in> set (columns (hierarchy_resolved ad h)). cell w' c = cell (snd q) c) \<and>
             (\<forall>q' \<in> set (source_rows (tabular_frames ad)).
                 row_key (hierarchy_keys ad h) (snd q') = row_key (hierarchy_keys ad h) (snd q)
                 \<longrightarrow> priority_of h (fst q) \<le> priority_of h (fst q'))"
    unfolding cols using kf(1) by simp
  show "distinct (map (row_key (hierarchy_keys ad h)) (rows (hierarchy_resolved ad h)))"
    by (rule kf(2))
  show "row_key (hierarchy_keys ad h) ` set (rows (hierarchy_resolved ad h)) =
           row_key (hierarchy_keys ad h) ` snd ` set (source_rows (tabular_frames ad))"
    by (rule kf(3))
qed

lemma sorted_map_int: "sorted (map (\<lambda>r. int (g r)) rs) = sorted (map g rs)"
  by (simp add: sorted_wrt_map)

lemma hierarchy_row_rank:
  assumes "r \<in> set (rows (concat_frames (hierarchy_frames ad h)))"
  shows "num (cell r ''_priority'') = int (priority_of h (row_source r))"
proof -
  from assms obtain q where q: "q \<in> set (source_rows (tabular_frames ad))"
    and r: "r = reindex (columns (concat_frames (hierarchy_frames ad h)))
                (AList.update ''_priority'' (PInt (int (priority_of h (fst q))))
                   (AList.update ''_source'' (PStr (fst q)) (snd q)))"
    unfolding hierarchy_rows by auto
  from hierarchy_row_cells(1,2) [OF q, of h] show ?thesis
    by (simp add: r num_def row_source_def)
qed

lemma hierarchy_sorted_by_rank:
  "sorted (map (\<lambda>r. priority_of h (row_source r)) (hierarchy_sorted ad h))"
proof -
  have eq: "map (\<lambda>r. num (cell r ''_priority'')) (hierarchy_sorted ad h) =
        map (\<lambda>r. int (priority_of h (row_source r))) (hierarchy_sorted ad h)"
    by (rule map_cong [OF refl])
       (simp add: hierarchy_row_rank hierarchy_sorted_def set_sort_values)
  have "sorted (map (\<lambda>r. num (cell r ''_priority'')) (hierarchy_sorted ad h))"
    unfolding hierarchy_sorted_def by (rule sorted_sort_values)
  then have "sorted (map (\<lambda>r. int (priority_of h (row_source r))) (hierarchy_sorted ad h))"
    unfolding eq .
  then show ?thesis unfolding sorted_map_int .
qed

lemma priority_zero_first:
  assumes "distinct (a # h')" and "priority_of (a # h') n = 0"
  shows "n = a"
proof (cases "n \<in> set (a # h')")
  case True
  then obtain i where i: "i < length (a # h')" and n: "n = (a # h') ! i"
    by (metis in_set_conv_nth)
  from priority_of_listed [OF assms(1) i] assms(2) have "i = 0" by (simp add: n)
  then show ?thesis by (simp add: n)
next
  case False
  from priority_of_unlisted [OF False] assms(2) show ?thesis by simp
qed

lemma priority_first: "distinct (a # h') \<Longrightarrow> priority_of (a # h') a = 0"
  using priority_of_listed [of "a # h'" 0] by simp

lemma hierarchy_resolved_columns:
  "set (columns (hierarchy_resolved ad h)) =
     set (columns (concat_frames (hierarchy_frames ad h))) - {''_source'', ''_priority''}"
  by (auto simp: hierarchy_resolved_def drop_columns_def)

lemma hierarchy_keys_resolved:
  "set (hierarchy_keys ad h) \<subseteq> set (columns (hierarchy_resolved ad h))"
  unfolding hierarchy_resolved_columns using hierarchy_keys_plain [of _ ad h] by auto

lemma hierarchy_first_wins:
  assumes d: "distinct (a # h')"
    and w': "w' \<in> set (rows (hierarchy_resolved ad (a # h')))"
    and rA: "(a, rA) \<in> set (source_rows (tabular_frames ad))"
    and same: "row_key (hierarchy_keys ad (a # h')) rA = row_key (hierarchy_keys ad (a # h')) w'"
  shows "\<exists>r0. (a, r0) \<in> set (source_rows (tabular_frames ad)) \<and>
           (\<forall>c \<in> set (columns (hierarchy_resolved ad (a # h'))). cell w' c = cell r0 c)"
proof -
  let ?h = "a # h'"
  let ?K = "hierarchy_keys ad ?h"
  from hierarchy_resolved_winners(1) [of ad ?h] w'
  obtain q where q: "q \<in> set (source_rows (tabular_frames ad))"
    and cells: "\<forall>c \<in> set (columns (hierarchy_resolved ad ?h)). cell w' c = cell (snd q) c"
    and least: "\<forall>q' \<in> set (source_rows (tabular_frames ad)).
                  row_key ?K (snd q') = row_key ?K (snd q)
                  \<longrightarrow> priority_of ?h (fst q) \<le> priority_of ?h (fst q')"
    by blast
  have "row_key ?K w' = row_key ?K (snd q)"
    using cells hierarchy_keys_resolved [of ad ?h] by (intro row_key_cong) blast
  with same least rA have "priority_of ?h (fst q) \<le> priority_of ?h a" by fastforce
  then have "priority_of ?h (fst q) = 0" by (simp add: priority_first [OF d])
  from priority_zero_first [OF d this] have "fst q = a" .
  with q have "(a, snd q) \<in> set (source_rows (tabular_frames ad))"
    by (metis prod.collapse)
  with cells show ?thesis by blast
qed


subsection \<open>Claims on hierarchy-based resolution\<close>

text \<open>
  Claim C2 (every source that is not in the hierarchy list gets the worst rank, and the
  first row per key in ascending order of rank is kept), checked against the code at the
  hierarchy list \<open>[A, B, B, B]\<close> and the tables \<open>B\<close> (row \<open>{id: 1, v: b}\<close>) and \<open>C\<close>
  (row \<open>{id: 1}\<close>). The ranks are kept in a dictionary (line 209), so the repeated name
  \<open>B\<close> keeps its last index, 3; the rank of a source that is not listed is
  \<open>len(source_priority)\<close> (line 217), the number of distinct names, 2, and not the length
  of the list. The source \<open>C\<close>, which the list does not name, ranks before the listed
  source \<open>B\<close>, and the resolved row on the key \<open>id = 1\<close> is the row of \<open>C\<close> (with no value
  in column \<open>v\<close>) instead of the row of \<open>B\<close>. The docstring of the function (\<open>The source
  higher in the hierarchy has precedence\<close>) and the specification agree on what is
  meant; the code departs from both.
\<close>

theorem resolve_conflicts_hierarchy_repeated_name:
  "''C'' \<notin> set [''A'', ''B'', ''B'', ''B''] \<and>
   priority_of [''A'', ''B'', ''B'', ''B''] ''C'' = 2 \<and>
   priority_of [''A'', ''B'', ''B'', ''B''] ''B'' = 3 \<and>
   resolve_conflicts_hierarchy [ex_B, ex_C] [''A'', ''B'', ''B'', ''B''] =
     Inr [\<lparr>file_name = ''resolved_data'',
           data = Tabular \<lparr>columns = [''id'', ''v''],
                            rows = [[(''id'', PInt 1), (''v'', PNone)]]\<rparr>\<rparr>]"
  by code_simp

text \<open>
  The same function on the inputs that stay clear of the repeated name. For a hierarchy
  list without repeated names, tables without a repeated column label and a non-empty
  common-key column set, each listed source has the index of its name in the list as its
  rank and every other source the length of the list, the worst rank; the result is the
  single item \<open>resolved_data\<close> whose table is obtained by sorting the concatenated rows
  ascending by rank (a rearrangement of the rows), keeping for every common-key tuple the
  first row in that order, and removing the two bookkeeping columns. The resolved table
  has exactly one row per key tuple of the source rows; each resolved row agrees on every
  resolved column with a source row whose source has the least rank among the sources
  with a row on that key. In particular, when the first source of the list has a row on a
  key, the resolved row for that key is a row of that source in full; for the hierarchy
  \<open>[A, B]\<close> and the tables \<open>A\<close>, \<open>B\<close>, \<open>C\<close> of the examples the resolved table is the row
  of \<open>A\<close>.
\<close>

theorem resolve_conflicts_hierarchy_distinct_names:
  assumes "distinct source_hierarchy"
    and "unique_labels aligned_data"
    and "hierarchy_keys aligned_data source_hierarchy \<noteq> []"
  shows
   "(\<forall>i < length source_hierarchy. priority_of source_hierarchy (source_hierarchy ! i) = i) \<and>
    (\<forall>n. n \<notin> set source_hierarchy \<longrightarrow>
          priority_of source_hierarchy n = length source_hierarchy) \<and>
    resolve_conflicts_hierarchy aligned_data source_hierarchy =
      Inr [\<lparr>file_name = ''resolved_data'',
            data = Tabular (hierarchy_resolved aligned_data source_hierarchy)\<rparr>] \<and>
    mset (hierarchy_sorted aligned_data source_hierarchy) =
      mset (rows (concat_frames (hierarchy_frames aligned_data source_hierarchy))) \<and>
    sorted (map (\<lambda>r. priority_of source_hierarchy (row_source r))
              (hierarchy_sorted aligned_data source_hierarchy)) \<and>
    (\<forall>w \<in> set (drop_duplicates (hierarchy_keys aligned_data source_hierarchy)
                   (hierarchy_sorted aligned_data source_hierarchy)).
        \<exists>pre post. hierarchy_sorted aligned_data source_hierarchy = pre @ w # post \<and>
          (\<forall>r \<in> set pre. row_key (hierarchy_keys aligned_data source_hierarchy) r \<noteq>
                          row_key (hierarchy_keys aligned_data source_hierarchy) w)) \<and>
    distinct (map (row_key (hierarchy_keys aligned_data source_hierarchy))
                (rows (hierarchy_resolved aligned_data source_hierarchy))) \<and>
    row_key (hierarchy_keys aligned_data source_hierarchy) `
        set (rows (hierarchy_resolved aligned_data source_hierarchy)) =
      row_key (hierarchy_keys aligned_data source_hierarchy) `
        snd ` set (source_rows (tabular_frames aligned_data)) \<and>
    (\<forall>w' \<in> set (rows (hierarchy_resolved aligned_data source_hierarchy)).
        \<exists>q \<in> set (source_rows (tabular_frames aligned_data)).
          (\<forall>c \<in> set (columns (hierarchy_resolved aligned_data source_hierarchy)).
              cell w' c = cell (snd q) c) \<and>
          (\<forall>q' \<in> set (source_rows (tabular_frames aligned_data)).
              row_key (hierarchy_keys aligned_data source_hierarchy) (snd q') =
              row_key (hierarchy_keys aligned_data source_hierarchy) (snd q)
              \<longrightarrow> priority_of source_hierarchy (fst q) \<le> priority_of source_hierarchy (fst q'))) \<and>
    (\<forall>a h' w' rA.
        source_hierarchy = a # h' \<longrightarrow>
        w' \<in> set (rows (hierarchy_resolved aligned_data source_hierarchy)) \<longrightarrow>
        (a, rA) \<in> set (source_rows (tabular_frames aligned_data)) \<longrightarrow>
        row_key (hierarchy_keys aligned_data source_hierarchy) rA =
          row_key (hierarchy_keys aligned_data source_hierarchy) w' \<longrightarrow>
        (\<exists>r0. (a, r0) \<in> set (source_rows (tabular_frames aligned_data)) \<and>
           (\<forall>c \<in> set (columns (hierarchy_resolved aligned_data source_hierarchy)).
               cell w' c = cell r0 c))) \<and>
    resolve_conflicts_hierarchy [ex_A, ex_B, ex_C] [''A'', ''B''] =
      Inr [\<lparr>file_name = ''resolved_data'',
            data = Tabular \<lparr>columns = [''id'', ''v''],
                             rows = [[(''id'', PInt 1), (''v'', PStr ''a'')]]\<rparr>\<rparr>]"
proof (intro conjI)
  show "\<forall>i < length source_hierarchy. priority_of source_hierarchy (source_hierarchy ! i) = i"
    using assms(1) by (simp add: priority_of_listed)
  show "\<forall>n. n \<notin> set source_hierarchy \<longrightarrow>
          priority_of source_hierarchy n = length source_hierarchy"
    using assms(1) by (simp add: priority_of_unlisted distinct_card)
  show "resolve_conflicts_hierarchy aligned_data source_hierarchy =
      Inr [\<lparr>file_name = ''resolved_data'',
            data = Tabular (hierarchy_resolved aligned_data source_hierarchy)\<rparr>]"
    using assms(2,3) by (rule resolve_conflicts_hierarchy_unfold)
  show "mset (hierarchy_sorted aligned_data source_hierarchy) =
      mset (rows (concat_frames (hierarchy_frames aligned_data source_hierarchy)))"
    by (simp add: hierarchy_sorted_def mset_sort_values)
  show "sorted (map (\<lambda>r. priority_of source_hierarchy (row_source r))
              (hierarchy_sorted aligned_data source_hierarchy))"
    by (rule hierarchy_sorted_by_rank)
  show "\<forall>w \<in> set (drop_duplicates (hierarchy_keys aligned_data source_hierarchy)
                   (hierarchy_sorted aligned_data source_hierarchy)).
        \<exists>pre post. hierarchy_sorted aligned_data source_hierarchy = pre @ w # post \<and>
          (\<forall>r \<in> set pre. row_key (hierarchy_keys aligned_data source_hierarchy) r \<noteq>
                          row_key (hierarchy_keys aligned_data source_hierarchy) w)"
    using drop_duplicates_first by blast
  show "distinct (map (row_key (hierarchy_keys aligned_data source_hierarchy))
                (rows (hierarchy_resolved aligned_data source_hierarchy)))"
    by (rule hierarchy_resolved_winners(2))
  show "row_key (hierarchy_keys aligned_data source_hierarchy) `
        set (rows (hierarchy_resolved aligned_data source_hierarchy)) =
      row_key (hierarchy_keys aligned_data source_hierarchy) `
        snd ` set (source_rows (tabular_frames aligned_data))"
    by (rule hierarchy_resolved_winners(3))
  show "\<forall>w' \<in> set (rows (hierarchy_resolved aligned_data source_hierarchy)).
        \<exists>q \<in> set (source_rows (tabular_frames aligned_data)).
          (\<forall>c \<in> set (columns (hierarchy_resolved aligned_data source_hierarchy)).
              cell w' c = cell (snd q) c) \<and>
          (\<forall>q' \<in> set (source_rows (tabular_frames aligned_data)).
              row_key (hierarchy_keys aligned_data source_hierarchy) (snd q') =
              row_key (hierarchy_keys aligned_data source_hierarchy) (snd q)
              \<longrightarrow> priority_of source_hierarchy (fst q) \<le> priority_of source_hierarchy (fst q'))"
    by (rule hierarchy_resolved_winners(1))
  show "\<forall>a h' w' rA.
        source_hierarchy = a # h' \<longrightarrow>
        w' \<in> set (rows (hierarchy_resolved aligned_data source_hierarchy)) \<longrightarrow>
        (a, rA) \<in> set (source_rows (tabular_frames aligned_data)) \<longrightarrow>
        row_key (hierarchy_keys aligned_data source_hierarchy) rA =
          row_key (hierarchy_keys aligned_data source_hierarchy) w' \<longrightarrow>
        (\<exists>r0. (a, r0) \<in> set (source_rows (tabular_frames aligned_data)) \<and>
           (\<forall>c \<in> set (columns (hierarchy_resolved aligned_data source_hierarchy)).
               cell w' c = cell r0 c))"
    using assms(1) hierarchy_first_wins by blast
  show "resolve_conflicts_hierarchy [ex_A, ex_B, ex_C] [''A'', ''B''] =
      Inr [\<lparr>file_name = ''resolved_data'',
            data = Tabular \<lparr>columns = [''id'', ''v''],
                             rows = [[(''id'', PInt 1), (''v'', PStr ''a'')]]\<rparr>\<rparr>]"
    by code_simp
qed

theorem resolve_conflicts_hierarchy_distinct_names_witness:
  "distinct [''A'', ''B''] \<and> unique_labels [ex_A, ex_B, ex_C] \<and>
   hierarchy_keys [ex_A, ex_B, ex_C] [''A'', ''B''] \<noteq> [] \<and>
   priority_of [''A'', ''B''] ''C'' = 2 \<and>
   resolve_conflicts_hierarchy [ex_A, ex_B, ex_C] [''A'', ''B''] =
      Inr [\<lparr>file_name = ''resolved_data'',
            data = Tabular (hierarchy_resolved [ex_A, ex_B, ex_C] [''A'', ''B''])\<rparr>]"
proof -
  have d: "distinct [''A'', ''B'']" by simp
  have u: "unique_labels [ex_A, ex_B, ex_C]" by code_simp
  have k: "hierarchy_keys [ex_A, ex_B, ex_C] [''A'', ''B''] \<noteq> []" by code_simp
  have n: "''C'' \<notin> set [''A'', ''B'']" by simp
  from resolve_conflicts_hierarchy_distinct_names [OF d u k] d u k n show ?thesis by simp
qed

subsection \<open>Weight-based resolution\<close>

lemma rows_tag_weight:
  "rows (tag_weight sw p) =
     map (\<lambda>r0. AList.update ''_weight'' (weight_cell (weight_of sw (fst p)))
                (AList.update ''_source'' (PStr (fst p)) r0)) (rows (snd p))"
  by (simp add: tag_weight_def set_column_def)

lemma columns_tag_weight:
  "set (columns (tag_weight sw p)) = set (columns (snd p)) \<union> {''_source'', ''_weight''}"
  by (auto simp: tag_weight_def set_column_def)

lemma weighted_rows:
  "rows (concat_frames (weighted_frames ad sw)) =
     map (\<lambda>q. reindex (columns (concat_frames (weighted_frames ad sw)))
                (AList.update ''_weight'' (weight_cell (weight_of sw (fst q)))
                   (AList.update ''_source'' (PStr (fst q)) (snd q))))
         (source_rows (tabular_frames ad))"
  unfolding weighted_frames_def
  by (rule tagged_rows) (rule rows_tag_weight)

text \<open>The row of the concatenated table that a source row becomes, its weight converted.\<close>

lemma weighted_combined_rows:
  "rows (weighted_combined ad sw) =
     map (\<lambda>q. (\<lambda>r. AList.update ''_weight'' (as_dtype (weighted_dtype ad sw) (cell r ''_weight'')) r)
                (reindex (columns (concat_frames (weighted_frames ad sw)))
                   (AList.update ''_weight'' (weight_cell (weight_of sw (fst q)))
                      (AList.update ''_source'' (PStr (fst q)) (snd q)))))
         (source_rows (tabular_frames ad))"
  by (simp add: weighted_combined_def map_column_def weighted_rows comp_def)

lemma weighted_labels:
  assumes "q \<in> set (source_rows (tabular_frames ad))"
  shows "''_source'' \<in> set (columns (concat_frames (weighted_frames ad sw)))"
    and "''_weight'' \<in> set (columns (concat_frames (weighted_frames ad sw)))"
proof -
  from source_rows_frame [OF assms] obtain p where "p \<in> set (tabular_frames ad)" by blast
  then have "tag_weight sw p \<in> set (weighted_frames ad sw)"
    by (simp add: weighted_frames_def)
  then show "''_source'' \<in> set (columns (concat_frames (weighted_frames ad sw)))"
    and "''_weight'' \<in> set (columns (concat_frames (weighted_frames ad sw)))"
    unfolding columns_concat_frames using columns_tag_weight [of sw p] by blast+
qed

lemma weighted_keys_plain:
  assumes "c \<in> set (weighted_keys ad sw)"
  shows "c \<noteq> ''_source''" and "c \<noteq> ''_weight''"
    and "c \<in> set (columns (concat_frames (weighted_frames ad sw)))"
  using assms by (auto simp: weighted_keys_def common_columns_in_concat)

lemma weighted_row_cells:
  fixes sw :: "string \<rightharpoonup> weight" and ad :: "aligned_item list" and q :: "string \<times> row"
  assumes "q \<in> set (source_rows (tabular_frames ad))"
  defines "r0 \<equiv> reindex (columns (concat_frames (weighted_frames ad sw)))
                (AList.update ''_weight'' (weight_cell (weight_of sw (fst q)))
                   (AList.update ''_source'' (PStr (fst q)) (snd q)))"
  defines "r \<equiv> AList.update ''_weight'' (as_dtype (weighted_dtype ad sw) (cell r0 ''_weight'')) r0"
  shows "cell r ''_source'' = PStr (fst q)"
    and "numr (cell r ''_weight'') = stored_weight ad sw (fst q)"
    and "c \<in> set (columns (concat_frames (weighted_frames ad sw))) \<Longrightarrow>
           c \<noteq> ''_source'' \<Longrightarrow> c \<noteq> ''_weight'' \<Longrightarrow> cell r c = cell (snd q) c"
  using weighted_labels [OF assms(1), of sw]
  by (simp_all add: r_def r0_def cell_reindex cell_update stored_weight_def)

lemma weighted_frames_nonempty:
  "weighted_keys ad sw \<noteq> [] \<Longrightarrow> weighted_frames ad sw \<noteq> []"
  by (auto simp: weighted_keys_def common_columns_Nil)

lemma weighted_concat:
  "unique_labels ad \<Longrightarrow>
     pd_concat (weighted_frames ad sw) = Inr (concat_frames (weighted_frames ad sw))"
  by (rule pd_concat_distinct)
     (simp add: unique_labels_def weighted_frames_def list_all_iff tag_weight_def
        distinct_set_column)

lemma columns_map_column: "columns (map_column c f df) = columns df"
  by (simp add: map_column_def)

lemma resolve_conflicts_weighted_unfold:
  "unique_labels ad \<Longrightarrow> weighted_keys ad sw \<noteq> [] \<Longrightarrow>
     resolve_conflicts_weighted ad sw =
       Inr [\<lparr>file_name = ''resolved_data'', data = Tabular (weighted_resolved ad sw)\<rparr>]"
  using weighted_frames_nonempty [of ad sw] weighted_concat [of ad sw]
  by (simp add: resolve_conflicts_weighted_def Let_def weighted_resolved_def
        weighted_sorted_def weighted_keys_def weighted_frames_def weighted_combined_def
        weighted_dtype_def frame_rows_update columns_map_column)

lemma weighted_resolved_columns:
  "set (columns (weighted_resolved ad sw)) =
     set (columns (concat_frames (weighted_frames ad sw))) - {''_source'', ''_weight''}"
  by (auto simp: weighted_resolved_def drop_columns_def)

lemma weighted_keys_resolved:
  "set (weighted_keys ad sw) \<subseteq> set (columns (weighted_resolved ad sw))"
  unfolding weighted_resolved_columns using weighted_keys_plain [of _ ad sw] by auto

lemma set_sort_numeric_desc: "set (sort_numeric_desc c rs) = set rs"
  by (simp add: sort_numeric_desc_def)

lemma mset_sort_numeric_desc: "mset (sort_numeric_desc c rs) = mset rs"
  by (simp add: sort_numeric_desc_def)

lemma sorted_sort_numeric_desc:
  "sorted (map (\<lambda>r. - numr (cell r c)) (sort_numeric_desc c rs))"
proof -
  let ?f = "\<lambda>r. numr (cell r c)"
  have "sorted (map ?f (sort_key ?f (rev rs)))" by simp
  then have "sorted_wrt (\<lambda>x y. ?f x \<le> ?f y) (sort_key ?f (rev rs))"
    by (simp add: sorted_wrt_map)
  then have "sorted_wrt (\<lambda>x y. - ?f x \<le> - ?f y) (rev (sort_key ?f (rev rs)))"
    by (simp add: sorted_wrt_rev)
  then show ?thesis by (simp add: sort_numeric_desc_def sorted_wrt_map)
qed

lemma weighted_resolved_winners:
  shows "\<forall>w' \<in> set (rows (weighted_resolved ad sw)).
           \<exists>q \<in> set (source_rows (tabular_frames ad)).
             (\<forall>c \<in> set (columns (weighted_resolved ad sw)). cell w' c = cell (snd q) c) \<and>
             (\<forall>q' \<in> set (source_rows (tabular_frames ad)).
                 row_key (weighted_keys ad sw) (snd q') = row_key (weighted_keys ad sw) (snd q)
                 \<longrightarrow> stored_weight ad sw (fst q') \<le> stored_weight ad sw (fst q))"
    and "distinct (map (row_key (weighted_keys ad sw)) (rows (weighted_resolved ad sw)))"
    and "row_key (weighted_keys ad sw) ` set (rows (weighted_resolved ad sw)) =
           row_key (weighted_keys ad sw) ` snd ` set (source_rows (tabular_frames ad))"
proof -
  let ?Q = "source_rows (tabular_frames ad)"
  let ?cols = "columns (concat_frames (weighted_frames ad sw))"
  let ?F = "\<lambda>q. (\<lambda>r. AList.update ''_weight'' (as_dtype (weighted_dtype ad sw) (cell r ''_weight'')) r)
                (reindex ?cols
                   (AList.update ''_weight'' (weight_cell (weight_of sw (fst q)))
                      (AList.update ''_source'' (PStr (fst q)) (snd q))))"
  let ?B = "[''_source'', ''_weight'']"
  let ?K = "weighted_keys ad sw"
  let ?f = "\<lambda>r. - numr (cell r ''_weight'')"
  let ?m = "\<lambda>q :: string \<times> row. - stored_weight ad sw (fst q)"
  have S: "set (weighted_sorted ad sw) = ?F ` set ?Q"
    by (simp add: weighted_sorted_def set_sort_numeric_desc weighted_combined_rows)
  have sorted: "sorted (map ?f (weighted_sorted ad sw))"
    unfolding weighted_sorted_def by (rule sorted_sort_numeric_desc)
  have f: "?f (?F q) = ?m q" if "q \<in> set ?Q" for q
    using weighted_row_cells(2) [OF that, of sw] by simp
  have cells: "cell (?F q) c = cell (snd q) c"
    if "q \<in> set ?Q" "c \<in> set ?cols" "c \<notin> set ?B" for q c
    using weighted_row_cells(3) [OF that(1), of c sw] that by simp
  have K: "set ?K \<subseteq> set ?cols - set ?B"
    using weighted_keys_plain [of _ ad sw] by auto
  have rows: "rows (weighted_resolved ad sw) =
        map (filter (\<lambda>p. fst p \<notin> set ?B)) (drop_duplicates ?K (weighted_sorted ad sw))"
    by (simp add: weighted_resolved_def drop_columns_def)
  have cols: "set (columns (weighted_resolved ad sw)) = set ?cols - set ?B"
    by (auto simp: weighted_resolved_def drop_columns_def)
  note kf = keep_first_winners [where F = ?F and orig = snd and m = ?m and f = ?f
      and Q = ?Q and cols = ?cols and B = ?B and K = ?K, OF S sorted f cells K, folded rows]
  show "\<forall>w' \<in> set (rows (weighted_resolved ad sw)).
           \<exists>q \<in> set (source_rows (tabular_frames ad)).
             (\<forall>c \<in> set (columns (weighted_resolved ad sw)). cell w' c = cell (snd q) c) \<and>
             (\<forall>q' \<in> set (source_rows (tabular_frames ad)).
                 row_key (weighted_keys ad sw) (snd q') = row_key (weighted_keys ad sw) (snd q)
                 \<longrightarrow> stored_weight ad sw (fst q') \<le> stored_weight ad sw (fst q))"
    unfolding cols using kf(1) by simp
  show "distinct (map (row_key (weighted_keys ad sw)) (rows (weighted_resolved ad sw)))"
    by (rule kf(2))
  show "row_key (weighted_keys ad sw) ` set (rows (weighted_resolved ad sw)) =
           row_key (weighted_keys ad sw) ` snd ` set (source_rows (tabular_frames ad))"
    by (rule kf(3))
qed

lemma weighted_row_weight:
  assumes "r \<in> set (rows (weighted_combined ad sw))"
  shows "numr (cell r ''_weight'') = stored_weight ad sw (row_source r)"
proof -
  from assms obtain q where q: "q \<in> set (source_rows (tabular_frames ad))"
    and r: "r = (\<lambda>r. AList.update ''_weight'' (as_dtype (weighted_dtype ad sw) (cell r ''_weight'')) r)
                (reindex (columns (concat_frames (weighted_frames ad sw)))
                   (AList.update ''_weight'' (weight_cell (weight_of sw (fst q)))
                      (AList.update ''_source'' (PStr (fst q)) (snd q))))"
    unfolding weighted_combined_rows by auto
  from weighted_row_cells(1,2) [OF q, of sw] show ?thesis
    by (simp add: r row_source_def)
qed

lemma weighted_sorted_by_weight:
  "sorted (rev (map (\<lambda>r. stored_weight ad sw (row_source r)) (weighted_sorted ad sw)))"
proof -
  have eq: "map (\<lambda>r. - numr (cell r ''_weight'')) (weighted_sorted ad sw) =
        map (\<lambda>r. - stored_weight ad sw (row_source r)) (weighted_sorted ad sw)"
    by (rule map_cong [OF refl])
       (simp add: weighted_row_weight weighted_sorted_def set_sort_numeric_desc)
  have "sorted (map (\<lambda>r. - numr (cell r ''_weight'')) (weighted_sorted ad sw))"
    unfolding weighted_sorted_def by (rule sorted_sort_numeric_desc)
  then have "sorted (map (\<lambda>r. - stored_weight ad sw (row_source r)) (weighted_sorted ad sw))"
    unfolding eq .
  then show ?thesis by (rule sorted_uminus_rev)
qed

lemma weighted_heaviest_wins:
  assumes top: "\<forall>n. n \<noteq> b \<longrightarrow> stored_weight ad sw n < stored_weight ad sw b"
    and w': "w' \<in> set (rows (weighted_resolved ad sw))"
    and rB: "(b, rB) \<in> set (source_rows (tabular_frames ad))"
    and same: "row_key (weighted_keys ad sw) rB = row_key (weighted_keys ad sw) w'"
  shows "\<exists>r0. (b, r0) \<in> set (source_rows (tabular_frames ad)) \<and>
           (\<forall>c \<in> set (columns (weighted_resolved ad sw)). cell w' c = cell r0 c)"
proof -
  let ?K = "weighted_keys ad sw"
  from weighted_resolved_winners(1) [of ad sw] w'
  obtain q where q: "q \<in> set (source_rows (tabular_frames ad))"
    and cells: "\<forall>c \<in> set (columns (weighted_resolved ad sw)). cell w' c = cell (snd q) c"
    and most: "\<forall>q' \<in> set (source_rows (tabular_frames ad)).
                  row_key ?K (snd q') = row_key ?K (snd q)
                  \<longrightarrow> stored_weight ad sw (fst q') \<le> stored_weight ad sw (fst q)"
    by blast
  have "row_key ?K w' = row_key ?K (snd q)"
    using cells weighted_keys_resolved [of ad sw] by (intro row_key_cong) blast
  with same most rB have "stored_weight ad sw b \<le> stored_weight ad sw (fst q)" by fastforce
  with top have "fst q = b" by force
  with q have "(b, snd q) \<in> set (source_rows (tabular_frames ad))"
    by (metis prod.collapse)
  with cells show ?thesis by blast
qed

text \<open>Where the weight column is not converted, or the int fits 53 bits, nothing is lost.\<close>

lemma stored_weight_exact:
  "weighted_dtype ad sw \<noteq> Float64 \<Longrightarrow>
     stored_weight ad sw n = weight_value (weight_of sw n)"
  by (cases "weighted_dtype ad sw"; cases "weight_of sw n")
     (simp_all add: stored_weight_def as_dtype_def weight_cell_def numr_def weight_value_def)

lemma stored_weight_small:
  "weight_of sw n = WInt i \<Longrightarrow> bit_length \<bar>i\<bar> \<le> 53 \<Longrightarrow>
     stored_weight ad sw n = of_int i"
  by (cases "weighted_dtype ad sw")
     (simp_all add: stored_weight_def as_dtype_def weight_cell_def numr_def round_float64_def Let_def)

lemma stored_weight_float:
  "weight_of sw n = WFloat x \<Longrightarrow> stored_weight ad sw n = x"
  by (cases "weighted_dtype ad sw")
     (simp_all add: stored_weight_def as_dtype_def weight_cell_def numr_def)

subsection \<open>Claims on weight-based resolution\<close>

text \<open>
  Claim C3 (the rows are sorted descending by the caller-supplied numeric weight and the
  first row per key is kept, so the source with the greater weight wins), checked against
  the code at the weights \<open>{A: 2^63, B: 2^63 + 1}\<close> and the tables \<open>A\<close> (row
  \<open>{id: 1, v: a}\<close>), \<open>B\<close> (row \<open>{id: 1, v: b}\<close>) and \<open>C\<close> (row \<open>{id: 1}\<close>, weight 0 by
  default). The weight of \<open>B\<close> is the greater one. The \<open>_weight\<close> columns of \<open>A\<close> and \<open>B\<close>
  are \<open>uint64\<close> and that of \<open>C\<close> is \<open>int64\<close>, so \<open>pd.concat\<close> (line 261) makes the column
  \<open>float64\<close>, and both weights are stored as \<open>2^63\<close>: the table that is sorted on line 270
  is the same table as for the weights \<open>{A: 2^63 + 1, B: 2^63}\<close>, and so is the result.
  Whatever row the sort puts first among the two, for one of the two weight mappings it is
  the row of the source with the smaller weight; with the rows of equal stored weight in
  table order it is the row of \<open>A\<close> for both. The docstring of the function (\<open>The source
  with higher weight has precedence\<close>) and the specification agree on what is meant; the
  code departs from both.
\<close>

theorem resolve_conflicts_weighted_rounded:
  "weight_value (weight_of [''A'' \<mapsto> WInt (2 ^ 63), ''B'' \<mapsto> WInt (2 ^ 63 + 1)] ''A'') <
     weight_value (weight_of [''A'' \<mapsto> WInt (2 ^ 63), ''B'' \<mapsto> WInt (2 ^ 63 + 1)] ''B'') \<and>
   weighted_dtype [ex_A, ex_B, ex_C] [''A'' \<mapsto> WInt (2 ^ 63), ''B'' \<mapsto> WInt (2 ^ 63 + 1)] =
     Float64 \<and>
   stored_weight [ex_A, ex_B, ex_C] [''A'' \<mapsto> WInt (2 ^ 63), ''B'' \<mapsto> WInt (2 ^ 63 + 1)] ''A'' =
     2 ^ 63 \<and>
   stored_weight [ex_A, ex_B, ex_C] [''A'' \<mapsto> WInt (2 ^ 63), ''B'' \<mapsto> WInt (2 ^ 63 + 1)] ''B'' =
     2 ^ 63 \<and>
   weighted_combined [ex_A, ex_B, ex_C] [''A'' \<mapsto> WInt (2 ^ 63), ''B'' \<mapsto> WInt (2 ^ 63 + 1)] =
     weighted_combined [ex_A, ex_B, ex_C] [''A'' \<mapsto> WInt (2 ^ 63 + 1), ''B'' \<mapsto> WInt (2 ^ 63)] \<and>
   resolve_conflicts_weighted [ex_A, ex_B, ex_C]
       [''A'' \<mapsto> WInt (2 ^ 63), ''B'' \<mapsto> WInt (2 ^ 63 + 1)] =
     Inr [\<lparr>file_name = ''resolved_data'',
           data = Tabular \<lparr>columns = [''id'', ''v''],
                            rows = [[(''id'', PInt 1), (''v'', PStr ''a'')]]\<rparr>\<rparr>] \<and>
   resolve_conflicts_weighted [ex_A, ex_B, ex_C]
       [''A'' \<mapsto> WInt (2 ^ 63 + 1), ''B'' \<mapsto> WInt (2 ^ 63)] =
     Inr [\<lparr>file_name = ''resolved_data'',
           data = Tabular \<lparr>columns = [''id'', ''v''],
                            rows = [[(''id'', PInt 1), (''v'', PStr ''a'')]]\<rparr>\<rparr>]"
  by code_simp

text \<open>
  The same function in terms of the weights as the \<open>_weight\<close> column stores them. For
  tables without a repeated column label and a non-empty common-key column set, each
  source has its caller-supplied weight, and 0 when the weight mapping does not name it;
  the stored weight is the weight itself when the column is not converted to \<open>float64\<close>,
  when the weight is a float, and when it is an int of at most 53 bits. The result is the
  single item \<open>resolved_data\<close> whose table is obtained by sorting the concatenated rows
  descending by stored weight (a rearrangement of the rows), keeping for every common-key
  tuple the first row in that order, and removing the two bookkeeping columns. The
  resolved table has exactly one row per key tuple of the source rows; each resolved row
  agrees on every resolved column with a source row whose source has the greatest stored
  weight among the sources with a row on that key. When a source whose stored weight is
  above all others has a row on a key, the resolved row for that key is a row of that
  source in full; for the weights \<open>{A: 1, B: 5}\<close> and the tables \<open>A\<close>, \<open>B\<close>, \<open>C\<close> of the
  examples the resolved table is the row of \<open>B\<close>.
\<close>

theorem resolve_conflicts_weighted_stored:
  assumes "unique_labels aligned_data"
    and "weighted_keys aligned_data source_weights \<noteq> []"
  shows
   "(\<forall>n w. source_weights n = Some w \<longrightarrow> weight_of source_weights n = w) \<and>
    (\<forall>n. source_weights n = None \<longrightarrow> weight_of source_weights n = WInt 0) \<and>
    (weighted_dtype aligned_data source_weights \<noteq> Float64 \<longrightarrow>
       (\<forall>n. stored_weight aligned_data source_weights n =
              weight_value (weight_of source_weights n))) \<and>
    (\<forall>n x. weight_of source_weights n = WFloat x \<longrightarrow>
       stored_weight aligned_data source_weights n = x) \<and>
    (\<forall>n i. weight_of source_weights n = WInt i \<longrightarrow> bit_length \<bar>i\<bar> \<le> 53 \<longrightarrow>
       stored_weight aligned_data source_weights n = of_int i) \<and>
    resolve_conflicts_weighted aligned_data source_weights =
      Inr [\<lparr>file_name = ''resolved_data'',
            data = Tabular (weighted_resolved aligned_data source_weights)\<rparr>] \<and>
    mset (weighted_sorted aligned_data source_weights) =
      mset (rows (weighted_combined aligned_data source_weights)) \<and>
    sorted (rev (map (\<lambda>r. stored_weight aligned_data source_weights (row_source r))
                   (weighted_sorted aligned_data source_weights))) \<and>
    (\<forall>w \<in> set (drop_duplicates (weighted_keys aligned_data source_weights)
                   (weighted_sorted aligned_data source_weights)).
        \<exists>pre post. weighted_sorted aligned_data source_weights = pre @ w # post \<and>
          (\<forall>r \<in> set pre. row_key (weighted_keys aligned_data source_weights) r \<noteq>
                          row_key (weighted_keys aligned_data source_weights) w)) \<and>
    distinct (map (row_key (weighted_keys aligned_data source_weights))
                (rows (weighted_resolved aligned_data source_weights))) \<and>
    row_key (weighted_keys aligned_data source_weights) `
        set (rows (weighted_resolved aligned_data source_weights)) =
      row_key (weighted_keys aligned_data source_weights) `
        snd ` set (source_rows (tabular_frames aligned_data)) \<and>
    (\<forall>w' \<in> set (rows (weighted_resolved aligned_data source_weights)).
        \<exists>q \<in> set (source_rows (tabular_frames aligned_data)).
          (\<forall>c \<in> set (columns (weighted_resolved aligned_data source_weights)).
              cell w' c = cell (snd q) c) \<and>
          (\<forall>q' \<in> set (source_rows (tabular_frames aligned_data)).
              row_key (weighted_keys aligned_data source_weights) (snd q') =
              row_key (weighted_keys aligned_data source_weights) (snd q)
              \<longrightarrow> stored_weight aligned_data source_weights (fst q')
                    \<le> stored_weight aligned_data source_weights (fst q))) \<and>
    (\<forall>b w' rB.
        (\<forall>n. n \<noteq> b \<longrightarrow> stored_weight aligned_data source_weights n
                          < stored_weight aligned_data source_weights b) \<longrightarrow>
        w' \<in> set (rows (weighted_resolved aligned_data source_weights)) \<longrightarrow>
        (b, rB) \<in> set (source_rows (tabular_frames aligned_data)) \<longrightarrow>
        row_key (weighted_keys aligned_data source_weights) rB =
          row_key (weighted_keys aligned_data source_weights) w' \<longrightarrow>
        (\<exists>r0. (b, r0) \<in> set (source_rows (tabular_frames aligned_data)) \<and>
           (\<forall>c \<in> set (columns (weighted_resolved aligned_data source_weights)).
               cell w' c = cell r0 c))) \<and>
    resolve_conflicts_weighted [ex_A, ex_B, ex_C] [''A'' \<mapsto> WInt 1, ''B'' \<mapsto> WInt 5] =
      Inr [\<lparr>file_name = ''resolved_data'',
            data = Tabular \<lparr>columns = [''id'', ''v''],
                             rows = [[(''id'', PInt 1), (''v'', PStr ''b'')]]\<rparr>\<rparr>]"
proof (intro conjI)
  show "\<forall>n w. source_weights n = Some w \<longrightarrow> weight_of source_weights n = w"
    by (simp add: weight_of_def)
  show "\<forall>n. source_weights n = None \<longrightarrow> weight_of source_weights n = WInt 0"
    by (simp add: weight_of_def)
  show "weighted_dtype aligned_data source_weights \<noteq> Float64 \<longrightarrow>
       (\<forall>n. stored_weight aligned_data source_weights n =
              weight_value (weight_of source_weights n))"
    using stored_weight_exact by blast
  show "\<forall>n x. weight_of source_weights n = WFloat x \<longrightarrow>
       stored_weight aligned_data source_weights n = x"
    using stored_weight_float by blast
  show "\<forall>n i. weight_of source_weights n = WInt i \<longrightarrow> bit_length \<bar>i\<bar> \<le> 53 \<longrightarrow>
       stored_weight aligned_data source_weights n = of_int i"
    using stored_weight_small by blast
  show "resolve_conflicts_weighted aligned_data source_weights =
      Inr [\<lparr>file_name = ''resolved_data'',
            data = Tabular (weighted_resolved aligned_data source_weights)\<rparr>]"
    using assms by (rule resolve_conflicts_weighted_unfold)
  show "mset (weighted_sorted aligned_data source_weights) =
      mset (rows (weighted_combined aligned_data source_weights))"
    by (simp add: weighted_sorted_def mset_sort_numeric_desc)
  show "sorted (rev (map (\<lambda>r. stored_weight aligned_data source_weights (row_source r))
                   (weighted_sorted aligned_data source_weights)))"
    by (rule weighted_sorted_by_weight)
  show "\<forall>w \<in> set (drop_duplicates (weighted_keys aligned_data source_weights)
                   (weighted_sorted aligned_data source_weights)).
        \<exists>pre post. weighted_sorted aligned_data source_weights = pre @ w # post \<and>
          (\<forall>r \<in> set pre. row_key (weighted_keys aligned_data source_weights) r \<noteq>
                          row_key (weighted_keys aligned_data source_weights) w)"
    using drop_duplicates_first by blast
  show "distinct (map (row_key (weighted_keys aligned_data source_weights))
                (rows (weighted_resolved aligned_data source_weights)))"
    by (rule weighted_resolved_winners(2))
  show "row_key (weighted_keys aligned_data source_weights) `
        set (rows (weighted_resolved aligned_data source_weights)) =
      row_key (weighted_keys aligned_data source_weights) `
        snd ` set (source_rows (tabular_frames aligned_data))"
    by (rule weighted_resolved_winners(3))
  show "\<forall>w' \<in> set (rows (weighted_resolved aligned_data source_weights)).
        \<exists>q \<in> set (source_rows (tabular_frames aligned_data)).
          (\<forall>c \<in> set (columns (weighted_resolved aligned_data source_weights)).
              cell w' c = cell (snd q) c) \<and>
          (\<forall>q' \<in> set (source_rows (tabular_frames aligned_data)).
              row_key (weighted_keys aligned_data source_weights) (snd q') =
              row_key (weighted_keys aligned_data source_weights) (snd q)
              \<longrightarrow> stored_weight aligned_data source_weights (fst q')
                    \<le> stored_weight aligned_data source_weights (fst q))"
    by (rule weighted_resolved_winners(1))
  show "\<forall>b w' rB.
        (\<forall>n. n \<noteq> b \<longrightarrow> stored_weight aligned_data source_weights n
                          < stored_weight aligned_data source_weights b) \<longrightarrow>
        w' \<in> set (rows (weighted_resolved aligned_data source_weights)) \<longrightarrow>
        (b, rB) \<in> set (source_rows (tabular_frames aligned_data)) \<longrightarrow>
        row_key (weighted_keys aligned_data source_weights) rB =
          row_key (weighted_keys aligned_data source_weights) w' \<longrightarrow>
        (\<exists>r0. (b, r0) \<in> set (source_rows (tabular_frames aligned_data)) \<and>
           (\<forall>c \<in> set (columns (weighted_resolved aligned_data source_weights)).
               cell w' c = cell r0 c))"
    using weighted_heaviest_wins by blast
  show "resolve_conflicts_weighted [ex_A, ex_B, ex_C] [''A'' \<mapsto> WInt 1, ''B'' \<mapsto> WInt 5] =
      Inr [\<lparr>file_name = ''resolved_data'',
            data = Tabular \<lparr>columns = [''id'', ''v''],
                             rows = [[(''id'', PInt 1), (''v'', PStr ''b'')]]\<rparr>\<rparr>]"
    by code_simp
qed

theorem resolve_conflicts_weighted_stored_witness:
  "unique_labels [ex_A, ex_B, ex_C] \<and>
   weighted_keys [ex_A, ex_B, ex_C] [''A'' \<mapsto> WInt 1, ''B'' \<mapsto> WInt 5] \<noteq> [] \<and>
   weight_of [''A'' \<mapsto> WInt 1, ''B'' \<mapsto> WInt 5] ''C'' = WInt 0 \<and>
   resolve_conflicts_weighted [ex_A, ex_B, ex_C] [''A'' \<mapsto> WInt 1, ''B'' \<mapsto> WInt 5] =
      Inr [\<lparr>file_name = ''resolved_data'',
            data = Tabular (weighted_resolved [ex_A, ex_B, ex_C]
                              [''A'' \<mapsto> WInt 1, ''B'' \<mapsto> WInt 5])\<rparr>]"
proof -
  have u: "unique_labels [ex_A, ex_B, ex_C]" by code_simp
  have k: "weighted_keys [ex_A, ex_B, ex_C] [''A'' \<mapsto> WInt 1, ''B'' \<mapsto> WInt 5] \<noteq> []"
    by code_simp
  have n: "[''A'' \<mapsto> WInt 1, ''B'' \<mapsto> WInt 5] ''C'' = None" by simp
  note t = resolve_conflicts_weighted_stored [OF u k]
  from t [THEN conjunct2, THEN conjunct1] n
  have d: "weight_of [''A'' \<mapsto> WInt 1, ''B'' \<mapsto> WInt 5] ''C'' = WInt 0" by blast
  note r = t [THEN conjunct2, THEN conjunct2, THEN conjunct2, THEN conjunct2, THEN conjunct2,
              THEN conjunct1]
  from u k d r show ?thesis by (intro conjI)
qed

subsection \<open>Time-based resolution\<close>






lemma time_keys_plain:
  assumes "c \<in> set (time_keys ad)"
  shows "c \<noteq> ''_source''" and "c \<noteq> ''timestamp''"
    and "c \<in> set (columns (concat_frames (time_frames ad)))"
  using assms by (auto simp: time_keys_def common_columns_in_concat)


lemma stamp_null: "(stamp p = PNone) = (p = None)"
  by (cases p) (simp_all add: stamp_def)






lemma time_resolved_columns:
  "set (columns (time_resolved td ad)) =
     set (columns (concat_frames (time_frames ad))) - {''_source'', ''timestamp''}"
  by (auto simp: time_resolved_def drop_columns_def)

lemma time_keys_resolved: "set (time_keys ad) \<subseteq> set (columns (time_resolved td ad))"
  unfolding time_resolved_columns using time_keys_plain [of _ ad] by auto








subsection \<open>Claims on time-based resolution\<close>






subsection \<open>The strategies when there is nothing to resolve\<close>

lemma no_tabular_frames: "filter is_tabular ad = [] \<Longrightarrow> tabular_frames ad = []"
  using length_tabular_frames [of ad] by simp

lemma no_timestamped_frames: "filter is_tabular ad = [] \<Longrightarrow> timestamped_frames ad = []"
  by (induction ad) (auto simp: is_tabular_def split: source_data.splits if_splits)

lemma timestamped_frames_tabular: "set (timestamped_frames ad) \<subseteq> set (tabular_frames ad)"
  by (induction ad) (auto split: source_data.splits if_splits)

lemma time_concat:
  "unique_labels ad \<Longrightarrow>
     pd_concat (map tag_source (timestamped_frames ad)) =
       Inr (concat_frames (map tag_source (timestamped_frames ad)))"
proof (rule pd_concat_distinct)
  assume u: "unique_labels ad"
  have "distinct (columns (tag_source p))" if "p \<in> set (timestamped_frames ad)" for p
  proof -
    from that timestamped_frames_tabular have "p \<in> set (tabular_frames ad)" by blast
    with u have "distinct (columns (snd p))" by (simp add: unique_labels_def list_all_iff)
    then show ?thesis by (simp add: tag_source_def distinct_set_column)
  qed
  then show "list_all (\<lambda>df. distinct (columns df)) (map tag_source (timestamped_frames ad))"
    by (simp add: list_all_iff)
qed

lemma resolve_conflicts_hierarchy_noop:
  assumes "filter is_tabular ad = [] \<or> unique_labels ad \<and> hierarchy_keys ad h = []"
  shows "resolve_conflicts_hierarchy ad h = Inr ad"
proof (cases "tabular_frames ad = []")
  case True
  then show ?thesis by (simp add: resolve_conflicts_hierarchy_def)
next
  case False
  with assms no_tabular_frames have "unique_labels ad" and "hierarchy_keys ad h = []"
    by blast+
  then show ?thesis
    using hierarchy_concat [of ad h]
    by (simp add: resolve_conflicts_hierarchy_def hierarchy_keys_def hierarchy_frames_def Let_def)
qed

lemma resolve_conflicts_weighted_noop:
  assumes "filter is_tabular ad = [] \<or> unique_labels ad \<and> weighted_keys ad sw = []"
  shows "resolve_conflicts_weighted ad sw = Inr ad"
proof (cases "tabular_frames ad = []")
  case True
  then show ?thesis by (simp add: resolve_conflicts_weighted_def)
next
  case False
  with assms no_tabular_frames have "unique_labels ad" and "weighted_keys ad sw = []"
    by blast+
  then show ?thesis
    using weighted_concat [of ad sw]
    by (simp add: resolve_conflicts_weighted_def weighted_keys_def weighted_frames_def Let_def)
qed

lemma resolve_conflicts_time_based_noop:
  assumes "timestamped_frames ad = [] \<or> time_keys ad = []"
  shows "resolve_conflicts_time_based td ad = ad"
proof (cases "timestamped_frames ad = []")
  case True
  then show ?thesis by (simp add: resolve_conflicts_time_based_def)
next
  case False
  with assms have "time_keys ad = []" by blast
  then show ?thesis
    by (simp add: resolve_conflicts_time_based_def time_keys_def time_frames_def Let_def)
qed

lemma resolve_conflicts_time_based_raising_noop:
  assumes "filter is_tabular ad = [] \<or> timestamped_frames ad = [] \<or>
           unique_labels ad \<and> time_keys ad = []"
  shows "resolve_conflicts_time_based_raising td ad = Inr ad"
proof (cases "timestamped_frames ad = []")
  case True
  then show ?thesis by (simp add: resolve_conflicts_time_based_raising_def)
next
  case False
  with assms no_timestamped_frames have "unique_labels ad" and "time_keys ad = []"
    by blast+
  then show ?thesis
    using time_concat [of ad] resolve_conflicts_time_based_noop [of ad td]
    by (simp add: resolve_conflicts_time_based_raising_def Let_def)
qed

subsection \<open>Claims on the structural no-op\<close>

text \<open>
  Claim C5 (with an empty common-key column set each strategy returns the input list
  unchanged rather than raising), checked against the code at two tables that share no
  column, one of which has a repeated column label: \<open>A\<close> with the columns \<open>x, x\<close> and \<open>D\<close>
  with the column \<open>w\<close> (for the time-based strategy both with a further column
  \<open>timestamp\<close>). The common-key column set is empty, and each strategy raises
  \<open>InvalidIndexError\<close> instead of returning its input: \<open>pd.concat\<close> (lines 225, 261, 295)
  runs before the key columns are computed and tested (lines 231, 267, 304), and it
  cannot re-index a table with a repeated label to the union of the labels.
  \<open>detect_conflicts\<close>, which computes the same key columns, tests them before it
  concatenates (lines 162 and 166), and returns its empty result on the same tables.
\<close>

theorem resolve_conflicts_raises_on_repeated_label:
  "hierarchy_keys [ex_dup, ex_D] [''A'', ''D''] = [] \<and>
   resolve_conflicts_hierarchy [ex_dup, ex_D] [''A'', ''D''] = Inl InvalidIndexError \<and>
   weighted_keys [ex_dup, ex_D] [''A'' \<mapsto> WInt 1] = [] \<and>
   resolve_conflicts_weighted [ex_dup, ex_D] [''A'' \<mapsto> WInt 1] = Inl InvalidIndexError \<and>
   time_keys [ex_dup_T, ex_D_T] = [] \<and>
   resolve_conflicts_time_based_raising iso_to_datetime [ex_dup_T, ex_D_T] =
     Inl InvalidIndexError \<and>
   resolve_conflicts iso_to_datetime [ex_dup, ex_D] [] ''Hierarchy-based'' Map.empty [''A'', ''D''] =
     Inl InvalidIndexError \<and>
   detect_conflicts [ex_dup, ex_D] = []"
  by code_simp

text \<open>
  The same strategies on the inputs that \<open>pd.concat\<close> accepts. When no item is tabular
  (for the time-based strategy also when no table has a \<open>timestamp\<close> column), and when no
  table has a repeated column label and the common-key column set is empty, each strategy
  returns the input list itself.
\<close>

theorem resolve_conflicts_noop_unique_labels:
  "(filter is_tabular aligned_data = [] \<or>
      unique_labels aligned_data \<and> hierarchy_keys aligned_data source_hierarchy = []
      \<longrightarrow> resolve_conflicts_hierarchy aligned_data source_hierarchy = Inr aligned_data) \<and>
   (filter is_tabular aligned_data = [] \<or>
      unique_labels aligned_data \<and> weighted_keys aligned_data source_weights = []
      \<longrightarrow> resolve_conflicts_weighted aligned_data source_weights = Inr aligned_data) \<and>
   (filter is_tabular aligned_data = [] \<or> timestamped_frames aligned_data = [] \<or>
      unique_labels aligned_data \<and> time_keys aligned_data = []
      \<longrightarrow> resolve_conflicts_time_based_raising to_datetime aligned_data = Inr aligned_data)"
  using resolve_conflicts_hierarchy_noop resolve_conflicts_weighted_noop
    resolve_conflicts_time_based_raising_noop by blast

theorem resolve_conflicts_noop_unique_labels_witness:
  "unique_labels [ex_A, ex_nested, ex_D] \<and>
   hierarchy_keys [ex_A, ex_nested, ex_D] [''A'', ''D''] = [] \<and>
   weighted_keys [ex_A, ex_nested, ex_D] [''A'' \<mapsto> WInt 1] = [] \<and>
   time_keys [ex_A, ex_nested, ex_D] = [] \<and>
   resolve_conflicts_hierarchy [ex_A, ex_nested, ex_D] [''A'', ''D''] =
     Inr [ex_A, ex_nested, ex_D] \<and>
   resolve_conflicts_weighted [ex_A, ex_nested, ex_D] [''A'' \<mapsto> WInt 1] =
     Inr [ex_A, ex_nested, ex_D] \<and>
   resolve_conflicts_time_based_raising iso_to_datetime [ex_A, ex_nested, ex_D] =
     Inr [ex_A, ex_nested, ex_D]"
proof -
  have u: "unique_labels [ex_A, ex_nested, ex_D]" by code_simp
  have h: "hierarchy_keys [ex_A, ex_nested, ex_D] [''A'', ''D''] = []" by code_simp
  have w: "weighted_keys [ex_A, ex_nested, ex_D] [''A'' \<mapsto> WInt 1] = []" by code_simp
  have t: "time_keys [ex_A, ex_nested, ex_D] = []" by code_simp
  from resolve_conflicts_noop_unique_labels
         [of "[ex_A, ex_nested, ex_D]" "[''A'', ''D'']" "[''A'' \<mapsto> WInt 1]" iso_to_datetime]
       u h w t
  show ?thesis by simp
qed

section \<open>Properties of metadata extraction\<close>

lemma traverse_fold:
  "traverse d path md = fold (\<lambda>pv. record_leaf (fst pv) (snd pv)) (keyed_leaves d path) md"
  "traverse_items kvs path md =
     fold (\<lambda>pv. record_leaf (fst pv) (snd pv)) (keyed_leaves_items kvs path) md"
  "traverse_list xs path md =
     fold (\<lambda>pv. record_leaf (fst pv) (snd pv)) (keyed_leaves_list xs path) md"
proof (induction d path md and kvs path md and xs path md
       rule: traverse_traverse_items_traverse_list.induct)
  case (5 key val rest path md)
  then show ?case by (cases val) (simp_all add: Let_def)
qed simp_all

lemma map_of_record_leaf_other:
  "p' \<noteq> p \<Longrightarrow> map_of (record_leaf p v md) p' = map_of md p'"
  by (simp add: record_leaf_def update_conv' split: option.splits)

lemma map_of_record_leaf_new:
  "map_of md p = None \<Longrightarrow>
     map_of (record_leaf p v md) p = Some \<lparr>dtype = type_name v, sample_values = [v]\<rparr>"
  by (simp add: record_leaf_def update_conv')

lemma map_of_record_leaf_old:
  "map_of md p = Some m \<Longrightarrow>
     map_of (record_leaf p v md) p =
       Some (if length (sample_values m) < 5 then m\<lparr>sample_values := sample_values m @ [v]\<rparr> else m)"
  by (simp add: record_leaf_def update_conv' max_sample_values_def)

lemma values_at_Cons:
  "values_at (pv # ls) p = (if fst pv = p then snd pv # values_at ls p else values_at ls p)"
  by (simp add: values_at_def)

lemma fold_record_leaf_old:
  "map_of md p = Some m \<Longrightarrow>
     map_of (fold (\<lambda>pv. record_leaf (fst pv) (snd pv)) ls md) p =
       Some (m\<lparr>sample_values :=
                 sample_values m @ take (5 - length (sample_values m)) (values_at ls p)\<rparr>)"
proof (induction ls arbitrary: md m)
  case Nil
  then show ?case by (simp add: values_at_def)
next
  case (Cons pv ls)
  show ?case
  proof (cases "fst pv = p")
    case False
    then have "map_of (record_leaf (fst pv) (snd pv) md) p = Some m"
      using Cons.prems by (simp add: map_of_record_leaf_other)
    from Cons.IH [OF this] False show ?thesis by (simp add: values_at_Cons)
  next
    case True
    show ?thesis
    proof (cases "length (sample_values m) < 5")
      case full: False
      then have "map_of (record_leaf (fst pv) (snd pv) md) p = Some m"
        using Cons.prems True by (simp add: map_of_record_leaf_old)
      from Cons.IH [OF this] full show ?thesis by simp
    next
      case room: True
      let ?m' = "m\<lparr>sample_values := sample_values m @ [snd pv]\<rparr>"
      have "map_of (record_leaf (fst pv) (snd pv) md) p = Some ?m'"
        using Cons.prems True room by (simp add: map_of_record_leaf_old)
      from Cons.IH [OF this] room True show ?thesis
        by (simp add: values_at_Cons take_Cons' Suc_diff_Suc)
    qed
  qed
qed

lemma fold_record_leaf_new:
  "map_of md p = None \<Longrightarrow>
     map_of (fold (\<lambda>pv. record_leaf (fst pv) (snd pv)) ls md) p =
       (case values_at ls p of
          [] \<Rightarrow> None
        | v # vs \<Rightarrow> Some \<lparr>dtype = type_name v, sample_values = take 5 (v # vs)\<rparr>)"
proof (induction ls arbitrary: md)
  case Nil
  then show ?case by (simp add: values_at_def)
next
  case (Cons pv ls)
  show ?case
  proof (cases "fst pv = p")
    case False
    then have "map_of (record_leaf (fst pv) (snd pv) md) p = None"
      using Cons.prems by (simp add: map_of_record_leaf_other)
    from Cons.IH [OF this] False show ?thesis by (simp add: values_at_Cons)
  next
    case True
    have "map_of (record_leaf (fst pv) (snd pv) md) p =
            Some \<lparr>dtype = type_name (snd pv), sample_values = [snd pv]\<rparr>"
      using Cons.prems True by (simp add: map_of_record_leaf_new)
    from fold_record_leaf_old [OF this, of ls] True show ?thesis
      by (simp add: values_at_Cons)
  qed
qed

lemma extract_nested_lookup:
  "map_of (extract_fields_metadata cd (Nested d)) p =
     (case values_at (keyed_leaves d []) p of
        [] \<Rightarrow> None
      | v # vs \<Rightarrow> Some \<lparr>dtype = type_name v, sample_values = take 5 (v # vs)\<rparr>)"
  by (simp add: extract_fields_metadata_def traverse_fold fold_record_leaf_new)

lemma record_leaf_distinct:
  "distinct (map fst md) \<Longrightarrow> distinct (map fst (record_leaf p v md))"
  by (simp add: record_leaf_def distinct_update split: option.splits)

lemma fold_record_leaf_distinct:
  "distinct (map fst md) \<Longrightarrow>
     distinct (map fst (fold (\<lambda>pv. record_leaf (fst pv) (snd pv)) ls md))"
  by (induction ls arbitrary: md) (simp_all add: record_leaf_distinct)

lemma extract_nested_distinct: "distinct (map fst (extract_fields_metadata cd (Nested d)))"
  by (simp add: extract_fields_metadata_def traverse_fold fold_record_leaf_distinct)

lemma extract_nested_entry:
  assumes "(p, m) \<in> set (extract_fields_metadata cd (Nested d))"
  shows "sample_values m = take 5 (values_at (keyed_leaves d []) p)"
    and "values_at (keyed_leaves d []) p \<noteq> []"
    and "dtype m = type_name (hd (values_at (keyed_leaves d []) p))"
proof -
  from assms extract_nested_distinct
  have "map_of (extract_fields_metadata cd (Nested d)) p = Some m" by simp
  then have "(case values_at (keyed_leaves d []) p of
        [] \<Rightarrow> None
      | v # vs \<Rightarrow> Some \<lparr>dtype = type_name v, sample_values = take 5 (v # vs)\<rparr>) = Some m"
    by (simp add: extract_nested_lookup)
  then show "sample_values m = take 5 (values_at (keyed_leaves d []) p)"
    and "values_at (keyed_leaves d []) p \<noteq> []"
    and "dtype m = type_name (hd (values_at (keyed_leaves d []) p))"
    by (auto split: list.splits)
qed

lemma values_at_nonempty: "(values_at ls p \<noteq> []) = (p \<in> fst ` set ls)"
  by (auto simp: values_at_def filter_empty_conv)

lemma extract_nested_dom:
  "fst ` set (extract_fields_metadata cd (Nested d)) = fst ` set (keyed_leaves d [])"
proof -
  have "p \<in> fst ` set (extract_fields_metadata cd (Nested d)) \<longleftrightarrow> p \<in> fst ` set (keyed_leaves d [])" for p
  proof -
    have "p \<in> fst ` set (extract_fields_metadata cd (Nested d)) \<longleftrightarrow>
            map_of (extract_fields_metadata cd (Nested d)) p \<noteq> None"
      by (simp add: map_of_eq_None_iff)
    also have "\<dots> \<longleftrightarrow> values_at (keyed_leaves d []) p \<noteq> []"
      by (simp add: extract_nested_lookup split: list.splits)
    finally show ?thesis by (simp add: values_at_nonempty)
  qed
  then show ?thesis by blast
qed

lemma keyed_leaves_visited:
  "set (keyed_leaves d path) \<subseteq> set (visited d path)"
  "set (keyed_leaves_items kvs path) \<subseteq> set (visited_items kvs path)"
  "set (keyed_leaves_list xs path) \<subseteq> set (visited_list xs path)"
proof (induction d path and kvs path and xs path
       rule: visited_visited_items_visited_list.induct)
  case (5 key val rest path)
  then show ?case by (cases val) (auto simp: Let_def)
qed auto

lemma visited_list_concat: "visited_list xs path = concat (map (\<lambda>x. visited x path) xs)"
  by (induction xs) simp_all

lemma keyed_leaves_list_concat:
  "keyed_leaves_list xs path = concat (map (\<lambda>x. keyed_leaves x path) xs)"
  by (induction xs) simp_all

lemma traverse_list_scalars: "traverse_list (map Leaf vs) path md = md"
  by (induction vs) simp_all

lemma keyed_leaf_recorded:
  assumes "(p, v) \<in> set (keyed_leaves d [])"
  shows "\<exists>m. map_of (extract_fields_metadata cd (Nested d)) p = Some m \<and>
           (v \<in> set (sample_values m) \<or> length (sample_values m) = 5)"
proof -
  let ?vals = "values_at (keyed_leaves d []) p"
  from assms have v: "v \<in> set ?vals" by (force simp: values_at_def)
  then obtain u us where vals: "?vals = u # us" by (cases ?vals) auto
  let ?m = "\<lparr>dtype = type_name u, sample_values = take 5 ?vals\<rparr>"
  have look: "map_of (extract_fields_metadata cd (Nested d)) p = Some ?m"
    by (simp add: extract_nested_lookup vals)
  have "v \<in> set (take 5 ?vals) \<or> length (take 5 ?vals) = 5"
  proof (cases "length ?vals \<le> 5")
    case True
    with v show ?thesis by simp
  next
    case False
    then show ?thesis by simp
  qed
  with look show ?thesis by simp
qed

subsection \<open>Claims on metadata extraction\<close>

text \<open>
  Claim C7. For every nested input to metadata extraction, the result has one entry per
  field path, and the \<open>sample_values\<close> list of every entry has length at most 5, no
  matter how many leaves share that path: it is the first five of the values recorded on
  that path, in the order of the traversal, with repeated values kept. Of the seven
  records of the example, which carry \<open>a = 1, 1, 2, 3, 4, 5, 6\<close>, the samples are
  \<open>[1, 1, 2, 3, 4]\<close>.
\<close>

theorem extract_fields_metadata_sample_bound:
  "distinct (map fst (extract_fields_metadata column_dtype (Nested d))) \<and>
   (\<forall>(p, m) \<in> set (extract_fields_metadata column_dtype (Nested d)).
       length (sample_values m) \<le> 5 \<and>
       sample_values m = take 5 (values_at (keyed_leaves d []) p)) \<and>
   extract_fields_metadata column_dtype (Nested ex_records) =
     [(''a'', \<lparr>dtype = ''int'',
               sample_values = [PInt 1, PInt 1, PInt 2, PInt 3, PInt 4]\<rparr>)]"
proof (intro conjI)
  show "distinct (map fst (extract_fields_metadata column_dtype (Nested d)))"
    by (rule extract_nested_distinct)
  show "\<forall>(p, m) \<in> set (extract_fields_metadata column_dtype (Nested d)).
       length (sample_values m) \<le> 5 \<and>
       sample_values m = take 5 (values_at (keyed_leaves d []) p)"
    using extract_nested_entry(1) by fastforce
  show "extract_fields_metadata column_dtype (Nested ex_records) =
     [(''a'', \<lparr>dtype = ''int'',
               sample_values = [PInt 1, PInt 1, PInt 2, PInt 3, PInt 4]\<rparr>)]"
    by (simp add: extract_fields_metadata_def ex_records_def record_leaf_def
          max_sample_values_def)
qed

theorem extract_fields_metadata_sample_bound_witness:
  "(''a'', \<lparr>dtype = ''int'', sample_values = [PInt 1, PInt 1, PInt 2, PInt 3, PInt 4]\<rparr>)
     \<in> set (extract_fields_metadata (\<lambda>df column. ''object'') (Nested ex_records)) \<and>
   length (sample_values
             \<lparr>dtype = ''int'', sample_values = [PInt 1, PInt 1, PInt 2, PInt 3, PInt 4]\<rparr>) \<le> 5 \<and>
   values_at (keyed_leaves ex_records []) ''a'' =
     [PInt 1, PInt 1, PInt 2, PInt 3, PInt 4, PInt 5, PInt 6]"
proof -
  have v: "values_at (keyed_leaves ex_records []) ''a'' =
     [PInt 1, PInt 1, PInt 2, PInt 3, PInt 4, PInt 5, PInt 6]"
    by code_simp
  from extract_fields_metadata_sample_bound [of "\<lambda>df column. ''object''" ex_records] v
  show ?thesis by simp
qed

text \<open>
  Claim C8, as the specification states it, fails for a leaf that is itself an element of
  a list: the traversal reaches the two strings of \<open>{tags: [x, y]}\<close> with the path
  \<open>tags\<close>, and records nothing for them; the result has no entry for that path.
\<close>

theorem extract_fields_metadata_list_scalars_counterexample:
  "visited ex_tags [] = [(''tags'', PStr ''x''), (''tags'', PStr ''y'')] \<and>
   extract_fields_metadata (\<lambda>df column. ''object'') (Nested ex_tags) = [] \<and>
   map_of (extract_fields_metadata (\<lambda>df column. ''object'') (Nested ex_tags)) ''tags'' = None"
  by code_simp

text \<open>
  Claim C8, amended. For every nested input to metadata extraction, every leaf value that
  is the value of a dict key and is reached by the traversal, also inside the elements of
  lists, which are visited without extending the path, has a metadata entry for its
  accumulated path: the leaf created it or was added to its samples, unless five samples
  were there already. No other path has an entry. A leaf that is itself an element of a
  list, or the whole input, is visited and leaves the metadata as it is.
\<close>

theorem extract_fields_metadata_keyed_leaves:
  "(\<forall>(p, v) \<in> set (keyed_leaves d []).
       \<exists>m. map_of (extract_fields_metadata column_dtype (Nested d)) p = Some m \<and>
           (v \<in> set (sample_values m) \<or> length (sample_values m) = 5)) \<and>
   fst ` set (extract_fields_metadata column_dtype (Nested d)) = fst ` set (keyed_leaves d []) \<and>
   set (keyed_leaves d []) \<subseteq> set (visited d []) \<and>
   visited (Seq xs) path = concat (map (\<lambda>x. visited x path) xs) \<and>
   keyed_leaves (Seq xs) path = concat (map (\<lambda>x. keyed_leaves x path) xs) \<and>
   traverse (Leaf v0) path md = md \<and>
   traverse (Seq (map Leaf vs)) path md = md \<and>
   extract_fields_metadata column_dtype (Nested ex_user) =
     [(''user.name'', \<lparr>dtype = ''str'', sample_values = [PStr ''n'']\<rparr>),
      (''user.posts.id'', \<lparr>dtype = ''int'', sample_values = [PInt 1, PInt 2]\<rparr>)] \<and>
   extract_fields_metadata column_dtype (Nested ex_tags) = []"
proof (intro conjI)
  show "\<forall>(p, v) \<in> set (keyed_leaves d []).
       \<exists>m. map_of (extract_fields_metadata column_dtype (Nested d)) p = Some m \<and>
           (v \<in> set (sample_values m) \<or> length (sample_values m) = 5)"
    using keyed_leaf_recorded by fastforce
  show "fst ` set (extract_fields_metadata column_dtype (Nested d)) = fst ` set (keyed_leaves d [])"
    by (rule extract_nested_dom)
  show "set (keyed_leaves d []) \<subseteq> set (visited d [])"
    by (rule keyed_leaves_visited(1))
  show "visited (Seq xs) path = concat (map (\<lambda>x. visited x path) xs)"
    by (simp add: visited_list_concat)
  show "keyed_leaves (Seq xs) path = concat (map (\<lambda>x. keyed_leaves x path) xs)"
    by (simp add: keyed_leaves_list_concat)
  show "traverse (Leaf v0) path md = md" by simp
  show "traverse (Seq (map Leaf vs)) path md = md"
    by (simp add: traverse_list_scalars)
  show "extract_fields_metadata column_dtype (Nested ex_user) =
     [(''user.name'', \<lparr>dtype = ''str'', sample_values = [PStr ''n'']\<rparr>),
      (''user.posts.id'', \<lparr>dtype = ''int'', sample_values = [PInt 1, PInt 2]\<rparr>)]"
    by (simp add: extract_fields_metadata_def ex_user_def record_leaf_def
          max_sample_values_def)
  show "extract_fields_metadata column_dtype (Nested ex_tags) = []"
    by (simp add: extract_fields_metadata_def ex_tags_def)
qed

theorem extract_fields_metadata_keyed_leaves_witness:
  "(''user.posts.id'', PInt 2) \<in> set (keyed_leaves ex_user []) \<and>
   map_of (extract_fields_metadata (\<lambda>df column. ''object'') (Nested ex_user)) ''user.posts.id'' =
     Some \<lparr>dtype = ''int'', sample_values = [PInt 1, PInt 2]\<rparr>"
proof -
  have k: "(''user.posts.id'', PInt 2) \<in> set (keyed_leaves ex_user [])" by code_simp
  from extract_fields_metadata_keyed_leaves [of ex_user "\<lambda>df column. ''object''"] k
  show ?thesis by simp
qed

section \<open>Properties of type conversion\<close>

lemma digit_char: "d < 10 \<Longrightarrow> digit_of (char_of (48 + int d)) = Some (int d)"
  by (simp add: digit_of_def Let_def)

lemma show_nat_digits: "c \<in> set (show_nat n) \<Longrightarrow> digit_of c \<noteq> None"
proof (induction n rule: show_nat.induct)
  case (1 n)
  show ?case
  proof (cases "n < 10")
    case True
    with "1.prems" show ?thesis
      by (simp add: show_nat.simps [of n] digit_char)
  next
    case False
    have "digit_of (char_of (48 + int (n mod 10))) \<noteq> None"
      using digit_char [of "n mod 10"] by simp
    with False "1.prems" "1.IH" show ?thesis
      by (auto simp: show_nat.simps [of n])
  qed
qed

lemma show_nat_nonempty: "show_nat n \<noteq> []"
  by (simp add: show_nat.simps [of n])

lemma digits_body_all:
  "ds \<noteq> [] \<Longrightarrow> \<forall>c \<in> set ds. digit_of c \<noteq> None \<Longrightarrow>
     digits_body acc ds = Some (foldl (\<lambda>a c. 10 * a + the (digit_of c)) acc ds)"
proof (induction acc ds rule: digits_body.induct)
  case (1 acc)
  then show ?case by simp
next
  case (2 acc c)
  then show ?case by auto
next
  case (3 acc c c' cs)
  from "3.prems" obtain d where d: "digit_of c = Some d" by auto
  from "3.prems" have "digit_of c' \<noteq> None" by simp
  then have c': "c' \<noteq> CHR ''_''" by (auto simp: digit_of_def Let_def)
  from "3.IH"(2) [OF d c'] "3.prems"
  show ?case by (simp add: d c')
qed

lemma foldl_show_nat: "foldl (\<lambda>a c. 10 * a + the (digit_of c)) 0 (show_nat n) = int n"
proof (induction n rule: show_nat.induct)
  case (1 n)
  show ?case
  proof (cases "n < 10")
    case True
    then show ?thesis by (simp add: show_nat.simps [of n] digit_char)
  next
    case False
    have "int n = int (10 * (n div 10) + n mod 10)" by simp
    also have "\<dots> = 10 * int (n div 10) + int (n mod 10)"
      by (simp only: of_nat_add of_nat_mult of_nat_numeral)
    finally have split: "10 * int (n div 10) + int (n mod 10) = int n" by simp
    from False "1.IH" show ?thesis
      using digit_char [of "n mod 10"]
      by (simp add: show_nat.simps [of n] split)
  qed
qed

lemma digits_body_show_nat: "digits_body 0 (show_nat n) = Some (int n)"
  using digits_body_all [OF show_nat_nonempty, of n 0] show_nat_digits [of _ n]
  by (simp add: foldl_show_nat)

lemma digit_not_space: "digit_of c \<noteq> None \<Longrightarrow> \<not> is_space c"
  by (auto simp: digit_of_def is_space_def Let_def)

lemma strip_id: "s \<noteq> [] \<Longrightarrow> \<not> is_space (hd s) \<Longrightarrow> \<not> is_space (last s) \<Longrightarrow> strip s = s"
proof -
  assume s: "s \<noteq> []" and h: "\<not> is_space (hd s)" and l: "\<not> is_space (last s)"
  from s h have 1: "dropWhile is_space s = s" by (cases s) simp_all
  from s l have "dropWhile is_space (rev s) = rev s"
    by (cases "rev s") (simp_all add: last_rev [symmetric] hd_rev)
  then show ?thesis by (simp add: strip_def 1)
qed

lemma strip_show_nat: "strip (show_nat n) = show_nat n"
proof (rule strip_id [OF show_nat_nonempty])
  show "\<not> is_space (hd (show_nat n))"
    using show_nat_nonempty [of n] show_nat_digits [of "hd (show_nat n)" n]
    by (simp add: digit_not_space)
  show "\<not> is_space (last (show_nat n))"
    using show_nat_nonempty [of n] show_nat_digits [of "last (show_nat n)" n]
    by (simp add: digit_not_space)
qed

lemma strip_minus_show_nat: "strip (CHR ''-'' # show_nat n) = CHR ''-'' # show_nat n"
proof (rule strip_id)
  show "CHR ''-'' # show_nat n \<noteq> []" by simp
  show "\<not> is_space (hd (CHR ''-'' # show_nat n))" by (simp add: is_space_def)
  show "\<not> is_space (last (CHR ''-'' # show_nat n))"
    using show_nat_nonempty [of n] show_nat_digits [of "last (show_nat n)" n]
    by (simp add: digit_not_space)
qed

lemma parse_int_show_int: "parse_int (show_int i) = Some i"
proof (cases "i < 0")
  case True
  then show ?thesis
    by (simp add: parse_int_def show_int_def strip_minus_show_nat digits_body_show_nat)
next
  case False
  obtain c cs where cs: "show_nat (nat i) = c # cs"
    using show_nat_nonempty [of "nat i"] by (cases "show_nat (nat i)") auto
  then have "digit_of c \<noteq> None" using show_nat_digits [of c "nat i"] by simp
  then have c: "c \<noteq> CHR ''-''" "c \<noteq> CHR ''+''" by (auto simp: digit_of_def Let_def)
  have "digits_body 0 (c # cs) = Some i"
    using digits_body_show_nat [of "nat i"] False by (simp add: cs)
  with False c show ?thesis
    using strip_show_nat [of "nat i"]
    by (simp add: parse_int_def show_int_def cs)
qed

lemma show_nat_long: "10 ^ k \<le> n \<Longrightarrow> k < length (show_nat n)"
proof (induction k arbitrary: n)
  case 0
  then show ?case using show_nat_nonempty [of n] by (cases "show_nat n") simp_all
next
  case (Suc k)
  define t :: nat where "t = 10 ^ k"
  have "1 \<le> t" by (simp add: t_def)
  moreover from Suc.prems have "10 * t \<le> n" by (simp add: t_def)
  ultimately have n: "\<not> n < 10" and d: "t \<le> n div 10" by arith+
  from Suc.IH [OF d [unfolded t_def]] n show ?case by (simp add: show_nat.simps [of n])
qed

lemma show_nat_short: "n < 10 ^ k \<Longrightarrow> 0 < k \<Longrightarrow> length (show_nat n) \<le> k"
proof (induction k arbitrary: n)
  case 0
  then show ?case by simp
next
  case (Suc k)
  show ?case
  proof (cases "n < 10")
    case True
    then show ?thesis by (simp add: show_nat.simps [of n])
  next
    case False
    with Suc.prems have k: "0 < k" by (cases k) simp_all
    define t :: nat where "t = 10 ^ k"
    from Suc.prems have "n < 10 * t" by (simp add: t_def)
    then have "n div 10 < t" by arith
    from Suc.IH [OF this [unfolded t_def] k] False show ?thesis
      by (simp add: show_nat.simps [of n])
  qed
qed

lemma count_digits_show_nat: "count_digits (show_nat n) = length (show_nat n)"
  using show_nat_digits [of _ n] by (simp add: count_digits_def)

lemma count_digits_show_int: "count_digits (show_int i) = length (show_nat (nat \<bar>i\<bar>))"
proof (cases "i < 0")
  case True
  then have "nat (- i) = nat \<bar>i\<bar>" by simp
  with True show ?thesis
    using count_digits_show_nat [of "nat \<bar>i\<bar>"]
    by (simp add: show_int_def count_digits_def digit_of_def Let_def)
next
  case False
  then have "nat i = nat \<bar>i\<bar>" by simp
  with False show ?thesis
    using count_digits_show_nat [of "nat \<bar>i\<bar>"] by (simp add: show_int_def)
qed

lemma within_limit:
  assumes "max_str_digits lib = 0 \<or> \<bar>x\<bar> < 10 ^ max_str_digits lib"
  shows "\<not> exceeds_limit lib (length (show_nat (nat \<bar>x\<bar>)))"
proof (cases "max_str_digits lib = 0")
  case True
  then show ?thesis by (simp add: exceeds_limit_def)
next
  case False
  with assms have "\<bar>x\<bar> < 10 ^ max_str_digits lib" by simp
  then have "int (nat \<bar>x\<bar>) < int (10 ^ max_str_digits lib)" by simp
  then have "nat \<bar>x\<bar> < 10 ^ max_str_digits lib" by (simp only: of_nat_less_iff)
  from show_nat_short [OF this] False show ?thesis by (simp add: exceeds_limit_def)
qed

lemma beyond_limit:
  assumes "0 < max_str_digits lib" and "10 ^ max_str_digits lib \<le> \<bar>x\<bar>"
  shows "exceeds_limit lib (length (show_nat (nat \<bar>x\<bar>)))"
proof -
  from assms(2) have "int (10 ^ max_str_digits lib) \<le> int (nat \<bar>x\<bar>)" by simp
  then have "10 ^ max_str_digits lib \<le> nat \<bar>x\<bar>" by (simp only: of_nat_le_iff)
  from show_nat_long [OF this] assms(1) show ?thesis by (simp add: exceeds_limit_def)
qed

lemma py_str_long_int:
  assumes "0 < max_str_digits lib" and "10 ^ max_str_digits lib \<le> \<bar>x\<bar>"
  shows "py_str lib (PInt x) = Inl ValueError"
  using beyond_limit [OF assms] by simp

lemma convert_value_to_type_long_int:
  assumes "0 < max_str_digits lib" and "10 ^ max_str_digits lib \<le> \<bar>x\<bar>"
  shows "convert_value_to_type lib (PInt x) ''str'' = Inl ValueError"
  using beyond_limit [OF assms] by (simp add: convert_value_to_type_def)

subsection \<open>Claims on type conversion\<close>

text \<open>
  Claim C9 (for every integer \<open>x\<close>, converting \<open>x\<close> to \<open>str\<close> and the result to \<open>int\<close>
  yields \<open>int(x)\<close>, and a failed conversion returns the value unchanged with one report
  instead of raising), checked against the code at \<open>x = 10^4300\<close>, an int of 4301 digits,
  under the default digit limit of CPython 3.11, 4300. \<open>str(value)\<close> (line 127) raises
  \<open>ValueError\<close>; the \<open>except\<close> branch catches it and formats \<open>{value}\<close> into the message
  for \<open>log_error\<close> (line 134), which converts the same int to a string and raises
  \<open>ValueError\<close> again, outside the \<open>try\<close>. The call raises: there is no first result to
  convert back, no report, and the value is not returned, although the comment on line 135
  (\<open>Return original value if conversion fails\<close>) and the specification say that it is.
\<close>

theorem convert_value_to_type_raises_on_long_int:
  "py_str ex_lib (PInt (10 ^ 4300)) = Inl ValueError \<and>
   convert_value_to_type ex_lib (PInt (10 ^ 4300)) ''str'' = Inl ValueError"
proof -
  have m: "max_str_digits ex_lib = 4300" by (simp add: ex_lib_def)
  have p: "0 < max_str_digits ex_lib" by (simp add: m)
  have "(10::int) ^ 4300 \<le> \<bar>10 ^ 4300\<bar>" by (rule abs_ge_self)
  then have q: "(10::int) ^ max_str_digits ex_lib \<le> \<bar>10 ^ 4300\<bar>" by (simp only: m)
  from py_str_long_int [OF p q] convert_value_to_type_long_int [OF p q]
  show ?thesis by (rule conjI)
qed

text \<open>
  The same function on the ints that the digit limit lets through, and beyond. When there
  is no limit, or \<open>x\<close> is an int of at most as many digits as the limit allows, converting
  \<open>x\<close> to \<open>str\<close> gives its decimal numeral and converting that to \<open>int\<close> gives \<open>x\<close> back,
  neither with a report, and \<open>int(x)\<close> is \<open>x\<close>. For every int of more digits than a limit
  allows the conversion to \<open>str\<close> raises. For the string \<open>not-a-number\<close> the conversion to
  \<open>int\<close> returns the string unchanged and emits one conversion-failure report. (A bool,
  which Python counts among the ints, is a value of its own here: \<open>True\<close> converts to the
  string \<open>True\<close>, which the conversion to \<open>int\<close> returns unchanged with a report,
  whereas \<open>int(True)\<close> is 1.)
\<close>

theorem convert_value_to_type_round_trip_within_limit:
  "(max_str_digits lib = 0 \<or> \<bar>x\<bar> < 10 ^ max_str_digits lib \<longrightarrow>
      convert_value_to_type lib (PInt x) ''str'' = Inr (PStr (show_int x), []) \<and>
      convert_value_to_type lib (PStr (show_int x)) ''int'' = Inr (PInt x, [])) \<and>
   py_int lib (PInt x) = Inr (PInt x) \<and>
   (0 < max_str_digits lib \<and> 10 ^ max_str_digits lib \<le> \<bar>x\<bar> \<longrightarrow>
      convert_value_to_type lib (PInt x) ''str'' = Inl ValueError) \<and>
   convert_value_to_type lib (PStr ''not-a-number'') ''int'' =
     Inr (PStr ''not-a-number'',
          [\<lparr>failed_value = PStr ''not-a-number'', target_type = ''int'', failure = ValueError\<rparr>]) \<and>
   convert_value_to_type lib (PBool True) ''str'' = Inr (PStr ''True'', []) \<and>
   convert_value_to_type lib (PStr ''True'') ''int'' =
     Inr (PStr ''True'',
          [\<lparr>failed_value = PStr ''True'', target_type = ''int'', failure = ValueError\<rparr>]) \<and>
   py_int lib (PBool True) = Inr (PInt 1)"
proof (intro conjI impI)
  assume a: "max_str_digits lib = 0 \<or> \<bar>x\<bar> < 10 ^ max_str_digits lib"
  note w = within_limit [OF a]
  from w show "convert_value_to_type lib (PInt x) ''str'' = Inr (PStr (show_int x), [])"
    by (simp add: convert_value_to_type_def)
  from w show "convert_value_to_type lib (PStr (show_int x)) ''int'' = Inr (PInt x, [])"
    by (simp add: convert_value_to_type_def parse_int_show_int count_digits_show_int)
next
  show "py_int lib (PInt x) = Inr (PInt x)" by simp
next
  assume "0 < max_str_digits lib \<and> 10 ^ max_str_digits lib \<le> \<bar>x\<bar>"
  then show "convert_value_to_type lib (PInt x) ''str'' = Inl ValueError"
    using convert_value_to_type_long_int by blast
next
  have "parse_int ''not-a-number'' = None"
    by (simp add: parse_int_def strip_def is_space_def digit_of_def)
  then show "convert_value_to_type lib (PStr ''not-a-number'') ''int'' =
     Inr (PStr ''not-a-number'',
          [\<lparr>failed_value = PStr ''not-a-number'', target_type = ''int'', failure = ValueError\<rparr>])"
    by (simp add: convert_value_to_type_def)
next
  show "convert_value_to_type lib (PBool True) ''str'' = Inr (PStr ''True'', [])"
    by (simp add: convert_value_to_type_def)
next
  have "parse_int ''True'' = None"
    by (simp add: parse_int_def strip_def is_space_def digit_of_def)
  then show "convert_value_to_type lib (PStr ''True'') ''int'' =
     Inr (PStr ''True'',
          [\<lparr>failed_value = PStr ''True'', target_type = ''int'', failure = ValueError\<rparr>])"
    by (simp add: convert_value_to_type_def)
next
  show "py_int lib (PBool True) = Inr (PInt 1)" by simp
qed

theorem convert_value_to_type_round_trip_within_limit_witness:
  "\<bar>- 1205\<bar> < (10::int) ^ max_str_digits ex_lib \<and>
   convert_value_to_type ex_lib (PInt (- 1205)) ''str'' = Inr (PStr ''-1205'', []) \<and>
   convert_value_to_type ex_lib (PStr ''-1205'') ''int'' = Inr (PInt (- 1205), [])"
proof -
  have m: "max_str_digits ex_lib = 4300" by (simp add: ex_lib_def)
  have a: "\<bar>- 1205 :: int\<bar> = 1205" by simp
  have "(1205::int) < 10 ^ 4" by simp
  also have "(10::int) ^ 4 \<le> 10 ^ 4300" by (rule power_increasing) simp_all
  finally have "(1205::int) < 10 ^ 4300" .
  then have l: "\<bar>- 1205\<bar> < (10::int) ^ max_str_digits ex_lib" by (simp only: a m)
  have s: "show_int (- 1205) = ''-1205''" by code_simp
  from convert_value_to_type_round_trip_within_limit [of ex_lib "- 1205"] l s
  show ?thesis by simp
qed

end
